theory Spec2Isabelle
  imports Main
begin

section \<open>Paths: the functions of Python's posixpath that pex.py calls\<close>

type_synonym path = string

text \<open>\<^verbatim>\<open>p.startswith('/')\<close>, which is also \<^verbatim>\<open>os.path.isabs(p)\<close>.\<close>

definition isabs :: "path \<Rightarrow> bool" where
  "isabs p = (case p of [] \<Rightarrow> False | c # _ \<Rightarrow> c = CHR ''/'')"

text \<open>
  \<^verbatim>\<open>os.path.join(a, b)\<close>: an absolute \<open>b\<close> replaces \<open>a\<close>; otherwise \<open>b\<close> is appended,
  with a separator unless \<open>a\<close> is empty or already ends in one.
\<close>

definition join :: "path \<Rightarrow> path \<Rightarrow> path" where
  "join a b =
     (if isabs b then b
      else if a = [] \<or> last a = CHR ''/'' then a @ b
      else a @ ''/'' @ b)"

text \<open>
  \<^verbatim>\<open>os.path.dirname(p)\<close>: \<open>head = p[:p.rfind('/') + 1]\<close>, and trailing separators are
  stripped from \<open>head\<close> unless it is empty or consists of separators only.
\<close>

definition dirname :: "path \<Rightarrow> path" where
  "dirname p =
     (let head = rev (dropWhile (\<lambda>c. c \<noteq> CHR ''/'') (rev p))
      in if head \<noteq> [] \<and> head \<noteq> replicate (length head) (CHR ''/'')
         then rev (dropWhile (\<lambda>c. c = CHR ''/'') (rev head))
         else head)"

section \<open>The file system as pex.py reads it\<close>

text \<open>
  \<open>fs p = Some t\<close> when \<^verbatim>\<open>lstat(p)\<close> finds a symbolic link whose text is \<open>t\<close>, so that
  \<^verbatim>\<open>os.path.islink(p)\<close> is true and \<^verbatim>\<open>os.readlink(p)\<close> returns \<open>t\<close>; \<open>fs p = None\<close> when
  \<open>p\<close> is missing or is anything but a link (\<^verbatim>\<open>islink\<close> is false for both).
\<close>

type_synonym links = "path \<Rightarrow> path option"

definition islink :: "links \<Rightarrow> path \<Rightarrow> bool" where
  "islink fs p = (fs p \<noteq> None)"

section \<open>dereference_symlinks\<close>

text \<open>
  \<^verbatim>\<open>
  def dereference_symlinks(src):
      while os.path.islink(src):
          src = os.path.join(os.path.dirname(src), os.readlink(src))
      return src
  \<close>
  The loop has no bound, so the function is partial: \<open>None\<close> is a loop that never ends.
\<close>

partial_function (option) dereference_symlinks :: "links \<Rightarrow> path \<Rightarrow> path option" where
  "dereference_symlinks fs src =
     (case fs src of
        None \<Rightarrow> Some src
      | Some target \<Rightarrow> dereference_symlinks fs (join (dirname src) target))"

declare dereference_symlinks.simps [code]

text \<open>
  The loop body, \<^verbatim>\<open>os.path.join(os.path.dirname(src), os.readlink(src))\<close>: the final
  component of \<open>src\<close> is replaced with the link's text, joined against the directory that
  holds the link.
\<close>

definition replace_leaf :: "path \<Rightarrow> path \<Rightarrow> path" where
  "replace_leaf src target = join (dirname src) target"

text \<open>
  A chain of leaf links, in the spec's words: \<open>links_along fs p ts\<close> says that \<open>p\<close> is a link
  with text \<open>ts ! 0\<close>, that the path obtained from it is a link with text \<open>ts ! 1\<close>, and so
  on; \<open>chain_end p ts\<close> is the path reached after replacing the leaf once for each text;
  \<open>chain_paths p ts\<close> lists the paths visited; \<open>leaf_chain fs p ts\<close> is a chain of depth
  \<open>length ts\<close> that ends at a path that is not a link.
\<close>

fun links_along :: "links \<Rightarrow> path \<Rightarrow> path list \<Rightarrow> bool" where
  "links_along fs p [] = True"
| "links_along fs p (t # ts) = (fs p = Some t \<and> links_along fs (replace_leaf p t) ts)"

definition chain_end :: "path \<Rightarrow> path list \<Rightarrow> path" where
  "chain_end p ts = foldl replace_leaf p ts"

fun chain_paths :: "path \<Rightarrow> path list \<Rightarrow> path list" where
  "chain_paths p [] = [p]"
| "chain_paths p (t # ts) = p # chain_paths (replace_leaf p t) ts"

definition leaf_chain :: "links \<Rightarrow> path \<Rightarrow> path list \<Rightarrow> bool" where
  "leaf_chain fs p ts = (links_along fs p ts \<and> fs (chain_end p ts) = None)"

section \<open>Strings: \<^verbatim>\<open>str.split\<close> and \<^verbatim>\<open>str.join\<close>\<close>

text \<open>\<^verbatim>\<open>s.split(c)\<close> for a one-character separator: one more piece than separators.\<close>

fun split_sep :: "char \<Rightarrow> string \<Rightarrow> string list" where
  "split_sep c [] = [[]]"
| "split_sep c (x # xs) =
     (if x = c then [] # split_sep c xs
      else (case split_sep c xs of
              [] \<Rightarrow> [[x]]
            | w # ws \<Rightarrow> (x # w) # ws))"

text \<open>\<^verbatim>\<open>sep.join(pieces)\<close>.\<close>

fun join_sep :: "string \<Rightarrow> string list \<Rightarrow> string" where
  "join_sep sep [] = []"
| "join_sep sep [w] = w"
| "join_sep sep (w # v # ws) = w @ sep @ join_sep sep (v # ws)"

text \<open>
  \<^verbatim>\<open>BUCK_ROOT = os.sep.join(__file__.split(os.sep)[:-6])\<close>: the path of the script without
  its last six components. A slice \<^verbatim>\<open>[:-6]\<close> of a shorter list is empty, as \<open>take\<close> of
  a truncated difference is.
\<close>

definition BUCK_ROOT :: "path \<Rightarrow> path" where
  "BUCK_ROOT file =
     (let parts = split_sep (CHR ''/'') file
      in join_sep ''/'' (take (length parts - 6) parts))"

section \<open>Exceptions, events and programs\<close>

text \<open>
  The exceptions a run can end with: \<open>SystemExit\<close> is what optparse's \<^verbatim>\<open>parser.error\<close>
  raises, \<open>KeyError\<close> a missing key of the manifest, and \<open>Failure\<close> stands for any
  exception raised inside a library call (json, tempfile, the PEX library).
\<close>

datatype exn = SystemExit int | KeyError string | Failure string

text \<open>
  The interpreter descriptor, as the three arguments
  \<^verbatim>\<open>PythonInterpreter(binary, identity, extras=...)\<close> is constructed from; \<open>extras\<close> is a
  dictionary from (name, version) to a location.
\<close>

record python_interpreter =
  binary :: path
  identity :: string
  extras :: "((string \<times> string) \<times> path) list"

record pex_info =
  zip_safe :: bool
  entry_point :: string

datatype label = Source | Resource

text \<open>
  Modelled from the spec: the state of a PEXBuilder (the class lives in
  third-party/py/twitter-commons of the repository, not under src/). Per section 4.3 it is
  rooted at a workspace directory, bound to an interpreter, carries the metadata \<open>info\<close>,
  and holds the entries registered so far: destination, category and the bytes placed
  under the destination.
\<close>

record pex_builder =
  builder_path :: path
  builder_interpreter :: python_interpreter
  info :: pex_info
  chroot :: "(path \<times> label \<times> string) list"

text \<open>The calls a run makes to its collaborators, in the order it makes them.\<close>

datatype event =
    PrintHelp
  | ParserError string
  | JsonLoad
  | Mkdtemp
  | FromBinary path
  | NewPEXBuilder path python_interpreter
  | SetZipSafe bool
  | SetEntryPoint string
  | AddSource path path
  | AddResource path path
  | Build pex_builder path
  | Rmtree path bool

text \<open>
  A program is \<open>None\<close> when it never returns; otherwise it gives the calls it made and
  either the exception it raised or its value.
\<close>

type_synonym 'a prog = "(event list \<times> (exn + 'a)) option"

definition ret :: "'a \<Rightarrow> 'a prog" where
  "ret x = Some ([], Inr x)"

definition raise :: "exn \<Rightarrow> 'a prog" where
  "raise e = Some ([], Inl e)"

definition call :: "event \<Rightarrow> exn + 'a \<Rightarrow> 'a prog" where
  "call ev r = Some ([ev], r)"

text \<open>A function that may loop, called from a program.\<close>

definition returned :: "'a option \<Rightarrow> 'a prog" where
  "returned r = (case r of None \<Rightarrow> None | Some x \<Rightarrow> Some ([], Inr x))"

text \<open>Sequencing: an exception of the first part skips the second.\<close>

definition bind :: "'a prog \<Rightarrow> ('a \<Rightarrow> 'b prog) \<Rightarrow> 'b prog" where
  "bind m f =
     (case m of
        None \<Rightarrow> None
      | Some (es, Inl e) \<Rightarrow> Some (es, Inl e)
      | Some (es, Inr x) \<Rightarrow>
          (case f x of
             None \<Rightarrow> None
           | Some (es', r) \<Rightarrow> Some (es @ es', r)))"

text \<open>
  \<^verbatim>\<open>try: body finally: cleanup\<close>: the cleanup runs after the body however the body ended
  (unless the body never ends); an exception of the cleanup replaces the body's outcome.
\<close>

definition try_finally :: "'a prog \<Rightarrow> unit prog \<Rightarrow> 'a prog" where
  "try_finally body cleanup =
     (case body of
        None \<Rightarrow> None
      | Some (es, r) \<Rightarrow>
          (case cleanup of
             None \<Rightarrow> None
           | Some (es', Inl e) \<Rightarrow> Some (es @ es', Inl e)
           | Some (es', Inr _) \<Rightarrow> Some (es @ es', r)))"

text \<open>\<^verbatim>\<open>for k, v in d.iteritems(): body\<close>, over the items in the order the dictionary gives them.\<close>

fun for_items :: "('s \<Rightarrow> path \<times> path \<Rightarrow> 's prog) \<Rightarrow> 's \<Rightarrow> (path \<times> path) list \<Rightarrow> 's prog" where
  "for_items body s [] = ret s"
| "for_items body s (kv # rest) = bind (body s kv) (\<lambda>s'. for_items body s' rest)"

section \<open>The environment of a run\<close>

text \<open>
  The manifest after \<^verbatim>\<open>json.load\<close>: a dictionary whose values are dictionaries from
  destination to source path, each given by its items (distinct keys) in iteration order.
\<close>

type_synonym manifest = "string \<Rightarrow> (path \<times> path) list option"

text \<open>
  Everything a run reads from outside: the interpreter running the tool, the path of the
  script, the symbolic links and file contents of the file system, what the library calls
  answer, and whether removing the scratch directory fails.
\<close>

record env =
  sys_executable :: path
  script_file :: path
  symlinks :: links
  file_content :: "path \<Rightarrow> string option"
  stdin_manifest :: "exn + manifest"
  mkdtemp_result :: "exn + path"
  from_binary_result :: "path \<Rightarrow> exn + python_interpreter"
  default_info :: pex_info
  build_failure :: "pex_builder \<Rightarrow> path \<Rightarrow> exn option"
  rmtree_fails :: bool

text \<open>
  What \<^verbatim>\<open>parser.parse_args()\<close> makes of the command line. optparse may end the process
  by itself: on \<^verbatim>\<open>-h\<close> or \<^verbatim>\<open>--help\<close> (the help option every OptionParser has unless it is
  turned off, and line 41 leaves it on) it prints the help and exits with status 0; on an
  unknown, ambiguous or malformed option it calls \<^verbatim>\<open>parser.error\<close>. Otherwise it decodes
  the flags given and the positional arguments.
\<close>

datatype parser_exit = HelpRequested | BadOption string

record cli =
  optparse_exit :: "parser_exit option"
  flag_entry_point :: "string option"
  flag_python :: "path option"
  positional :: "string list"

record options =
  opt_entry_point :: string
  opt_python :: path

text \<open>
  The values optparse stores for
  \<^verbatim>\<open>
  parser.add_option('--entry-point', default='__main__')
  parser.add_option('--python', default=sys.executable)
  \<close>
  each default replaced by the flag when it is given.
\<close>

definition option_values :: "env \<Rightarrow> cli \<Rightarrow> options" where
  "option_values env c =
     \<lparr>opt_entry_point = (case flag_entry_point c of None \<Rightarrow> ''__main__'' | Some e \<Rightarrow> e),
      opt_python = (case flag_python c of None \<Rightarrow> sys_executable env | Some p \<Rightarrow> p)\<rparr>"

text \<open>\<^verbatim>\<open>parser.error(msg)\<close> prints the usage and the message and exits with status 2.\<close>

definition parser_error :: "string \<Rightarrow> unit prog" where
  "parser_error msg = call (ParserError msg) (Inl (SystemExit 2))"

text \<open>The help action: \<^verbatim>\<open>parser.print_help()\<close>, then \<^verbatim>\<open>parser.exit()\<close> with status 0.\<close>

definition print_help :: "unit prog" where
  "print_help = call PrintHelp (Inl (SystemExit 0))"

text \<open>
  \<^verbatim>\<open>options, args = parser.parse_args()\<close>: the help action and \<^verbatim>\<open>parser.error\<close> never
  return, so the values come back only from a command line that optparse decodes.
\<close>

definition parse_args :: "env \<Rightarrow> cli \<Rightarrow> (options \<times> string list) prog" where
  "parse_args env c =
     (case optparse_exit c of
        Some HelpRequested \<Rightarrow>
          bind print_help (\<lambda>_. ret (option_values env c, positional c))
      | Some (BadOption msg) \<Rightarrow>
          bind (parser_error msg) (\<lambda>_. ret (option_values env c, positional c))
      | None \<Rightarrow> ret (option_values env c, positional c))"

definition json_load :: "env \<Rightarrow> manifest prog" where
  "json_load env = call JsonLoad (stdin_manifest env)"

definition getitem :: "manifest \<Rightarrow> string \<Rightarrow> (path \<times> path) list prog" where
  "getitem m key = (case m key of None \<Rightarrow> raise (KeyError key) | Some d \<Rightarrow> ret d)"

definition mkdtemp :: "env \<Rightarrow> path prog" where
  "mkdtemp env = call Mkdtemp (mkdtemp_result env)"

text \<open>
  \<^verbatim>\<open>shutil.rmtree(path, ignore_errors)\<close>: with \<open>ignore_errors\<close> set, a failure of the
  removal is dropped inside rmtree.
\<close>

definition rmtree :: "env \<Rightarrow> path \<Rightarrow> bool \<Rightarrow> unit prog" where
  "rmtree env p ignore_errors =
     call (Rmtree p ignore_errors)
       (if rmtree_fails env \<and> \<not> ignore_errors then Inl (Failure ''OSError'') else Inr ())"

definition from_binary :: "env \<Rightarrow> path \<Rightarrow> python_interpreter prog" where
  "from_binary env python = call (FromBinary python) (from_binary_result env python)"

definition PythonInterpreter ::
    "path \<Rightarrow> string \<Rightarrow> ((string \<times> string) \<times> path) list \<Rightarrow> python_interpreter" where
  "PythonInterpreter b i x = \<lparr>binary = b, identity = i, extras = x\<rparr>"

section \<open>The archive builder\<close>

text \<open>
  Whether a destination leaves the workspace through \<^verbatim>\<open>..\<close>: walking its components from
  the workspace root, \<open>d\<close> levels deep, a \<^verbatim>\<open>..\<close> at depth 0 steps outside.
\<close>

fun escapes_from :: "nat \<Rightarrow> string list \<Rightarrow> bool" where
  "escapes_from d [] = False"
| "escapes_from d (c # cs) =
     (if c = ''..'' then (case d of 0 \<Rightarrow> True | Suc d' \<Rightarrow> escapes_from d' cs)
      else if c = [] \<or> c = ''.'' then escapes_from d cs
      else escapes_from (Suc d) cs)"

definition escapes :: "path \<Rightarrow> bool" where
  "escapes dst = escapes_from 0 (split_sep (CHR ''/'') dst)"

text \<open>
  Modelled from the spec: \<^verbatim>\<open>PEXBuilder(path=..., interpreter=...)\<close>, the spec's
  \<open>create(workspace_dir, interpreter)\<close>: build state rooted at the workspace, nothing
  registered yet. The metadata starts at the library's defaults.
\<close>

definition PEXBuilder :: "env \<Rightarrow> path \<Rightarrow> python_interpreter \<Rightarrow> pex_builder prog" where
  "PEXBuilder env p interp =
     call (NewPEXBuilder p interp)
       (Inr \<lparr>builder_path = p, builder_interpreter = interp, info = default_info env, chroot = []\<rparr>)"

text \<open>\<^verbatim>\<open>pex_builder.info.zip_safe = v\<close> and \<^verbatim>\<open>pex_builder.info.entry_point = v\<close>.\<close>

definition set_zip_safe :: "pex_builder \<Rightarrow> bool \<Rightarrow> pex_builder prog" where
  "set_zip_safe b v = call (SetZipSafe v) (Inr (b\<lparr>info := (info b)\<lparr>zip_safe := v\<rparr>\<rparr>))"

definition set_entry_point :: "pex_builder \<Rightarrow> string \<Rightarrow> pex_builder prog" where
  "set_entry_point b v = call (SetEntryPoint v) (Inr (b\<lparr>info := (info b)\<lparr>entry_point := v\<rparr>\<rparr>))"

text \<open>
  Modelled from the spec: what \<^verbatim>\<open>add_source\<close> and \<^verbatim>\<open>add_resource\<close> of the missing
  PEXBuilder do to the builder (the spec's addModule and addResource): the entry is
  registered under its category, with the content of the source placed under the
  destination; a destination that escapes the workspace root through \<^verbatim>\<open>..\<close> is rejected, and
  a source that does not exist cannot be linked.
\<close>

definition link_into :: "env \<Rightarrow> label \<Rightarrow> pex_builder \<Rightarrow> path \<Rightarrow> path \<Rightarrow> exn + pex_builder" where
  "link_into env l b src dst =
     (if escapes dst then Inl (Failure ''destination escapes the workspace'')
      else (case file_content env src of
              None \<Rightarrow> Inl (Failure ''no such file'')
            | Some bytes \<Rightarrow> Inr (b\<lparr>chroot := chroot b @ [(dst, l, bytes)]\<rparr>)))"

definition add_source :: "env \<Rightarrow> pex_builder \<Rightarrow> path \<Rightarrow> path \<Rightarrow> pex_builder prog" where
  "add_source env b src dst = call (AddSource src dst) (link_into env Source b src dst)"

definition add_resource :: "env \<Rightarrow> pex_builder \<Rightarrow> path \<Rightarrow> path \<Rightarrow> pex_builder prog" where
  "add_resource env b src dst = call (AddResource src dst) (link_into env Resource b src dst)"

text \<open>
  Modelled from the spec: \<^verbatim>\<open>build(output)\<close> of the missing PEXBuilder seals the entries
  registered so far, with the metadata, into the archive at \<open>output\<close>, or fails (I/O error,
  disk full, permission denied: the environment decides). \<open>seal\<close> is the archive written
  when it succeeds.
\<close>

record archive =
  archive_entry_point :: string
  archive_zip_safe :: bool
  archive_identity :: string
  archive_files :: "(path \<times> string) list"

definition seal :: "pex_builder \<Rightarrow> archive" where
  "seal b =
     \<lparr>archive_entry_point = entry_point (info b),
      archive_zip_safe = zip_safe (info b),
      archive_identity = identity (builder_interpreter b),
      archive_files = map (\<lambda>(dst, l, bytes). (dst, bytes)) (chroot b)\<rparr>"

definition build :: "env \<Rightarrow> pex_builder \<Rightarrow> path \<Rightarrow> unit prog" where
  "build env b output =
     call (Build b output)
       (case build_failure env b output of Some e \<Rightarrow> Inl e | None \<Rightarrow> Inr ())"

section \<open>main\<close>

text \<open>
  The body of the \<^verbatim>\<open>try\<close> statement of main (lines 57 to 99): the interpreter descriptor,
  the builder, its metadata, the two loops over the manifest, and the build.
\<close>

definition try_body :: "env \<Rightarrow> options \<Rightarrow> path \<Rightarrow> manifest \<Rightarrow> path \<Rightarrow> unit prog" where
  "try_body env options output manifest tmp_dir =
     bind (from_binary env (opt_python options)) (\<lambda>found.
     let interpreter =
           PythonInterpreter (opt_python options) (identity found)
             [((''setuptools'', ''1.0''),
               join (BUCK_ROOT (script_file env)) ''third-party/py/setuptools'')]
     in
     bind (PEXBuilder env tmp_dir interpreter) (\<lambda>pex_builder.
     bind (set_zip_safe pex_builder True) (\<lambda>pex_builder.
     bind (set_entry_point pex_builder (opt_entry_point options)) (\<lambda>pex_builder.
     bind (getitem manifest ''modules'') (\<lambda>modules.
     bind (for_items
             (\<lambda>pex_builder (dst, src).
                bind (returned (dereference_symlinks (symlinks env) src)) (\<lambda>resolved.
                add_source env pex_builder resolved dst))
             pex_builder modules) (\<lambda>pex_builder.
     bind (getitem manifest ''resources'') (\<lambda>resources.
     bind (for_items
             (\<lambda>pex_builder (dst, src).
                bind (returned (dereference_symlinks (symlinks env) src)) (\<lambda>resolved.
                add_resource env pex_builder resolved dst))
             pex_builder resources) (\<lambda>pex_builder.
     build env pex_builder output))))))))"

text \<open>
  main: the command line is parsed; with one positional argument the manifest is read, the scratch directory made, and
  the body run with the removal of the scratch directory as its \<^verbatim>\<open>finally\<close>; main then
  falls off its end and returns \<^verbatim>\<open>None\<close>. Otherwise \<^verbatim>\<open>parser.error\<close> is called, and
  \<^verbatim>\<open>return 1\<close> follows it.
\<close>

definition main :: "env \<Rightarrow> cli \<Rightarrow> int option prog" where
  "main env c =
     bind (parse_args env c) (\<lambda>(options, args).
     if length args = 1 then
       let output = args ! 0 in
       bind (json_load env) (\<lambda>manifest.
       bind (mkdtemp env) (\<lambda>tmp_dir.
       bind (try_finally
               (try_body env options output manifest tmp_dir)
               (rmtree env tmp_dir True)) (\<lambda>_.
       ret None)))
     else
       bind (parser_error '''output' positional argument is required'') (\<lambda>_.
       ret (Some 1)))"

text \<open>
  \<^verbatim>\<open>sys.exit(main())\<close>: the status of the process is 0 when main returns \<^verbatim>\<open>None\<close>, the
  number it returns otherwise, the code of a \<open>SystemExit\<close>, and 1 for any other exception.
\<close>

definition exit_status :: "exn + int option \<Rightarrow> int" where
  "exit_status r =
     (case r of
        Inr None \<Rightarrow> 0
      | Inr (Some n) \<Rightarrow> n
      | Inl (SystemExit n) \<Rightarrow> n
      | Inl _ \<Rightarrow> 1)"

text \<open>The events that register an entry with the builder.\<close>

definition is_registration :: "event \<Rightarrow> bool" where
  "is_registration ev =
     (case ev of AddSource _ _ \<Rightarrow> True | AddResource _ _ \<Rightarrow> True | _ \<Rightarrow> False)"

section \<open>A sample run\<close>

text \<open>
  A small environment on which the definitions can be run: the module \<^verbatim>\<open>/w/a.py\<close> is a
  link to \<^verbatim>\<open>gen/a.py\<close>, the script sits in the repository \<^verbatim>\<open>/repo\<close>, and removing the
  scratch directory fails.
\<close>

definition sample_manifest :: manifest where
  "sample_manifest =
     [''modules'' \<mapsto> [(''app/main.py'', ''/w/a.py'')],
      ''resources'' \<mapsto> [(''app/data.txt'', ''/w/data.txt'')]]"

definition sample_env :: env where
  "sample_env =
     \<lparr>sys_executable = ''/usr/bin/python'',
      script_file = ''/repo/src/com/facebook/buck/python/pex.py'',
      symlinks = [''/w/a.py'' \<mapsto> ''gen/a.py''],
      file_content = [''/w/gen/a.py'' \<mapsto> ''print 1'', ''/w/data.txt'' \<mapsto> ''data''],
      stdin_manifest = Inr sample_manifest,
      mkdtemp_result = Inr ''/tmp/pex'',
      from_binary_result =
        (\<lambda>p. Inr \<lparr>binary = p, identity = ''CPython-2.7'',
                   extras = [((''setuptools'', ''0.6''), ''/usr/lib/python2.7'')]\<rparr>),
      default_info = \<lparr>zip_safe = False, entry_point = []\<rparr>,
      build_failure = (\<lambda>b output. None),
      rmtree_fails = True\<rparr>"

definition sample_cli :: cli where
  "sample_cli =
     \<lparr>optparse_exit = None, flag_entry_point = None, flag_python = None,
      positional = [''out.pex'']\<rparr>"

definition sample_interpreter :: python_interpreter where
  "sample_interpreter =
     \<lparr>binary = ''/usr/bin/python'', identity = ''CPython-2.7'',
      extras = [((''setuptools'', ''1.0''), ''/repo/third-party/py/setuptools'')]\<rparr>"

definition sample_builder :: pex_builder where
  "sample_builder =
     \<lparr>builder_path = ''/tmp/pex'', builder_interpreter = sample_interpreter,
      info = \<lparr>zip_safe = True, entry_point = ''__main__''\<rparr>,
      chroot = [(''app/main.py'', Source, ''print 1''), (''app/data.txt'', Resource, ''data'')]\<rparr>"

definition sample_setup :: "event list" where
  "sample_setup =
     [JsonLoad, Mkdtemp, FromBinary ''/usr/bin/python'',
      NewPEXBuilder ''/tmp/pex'' sample_interpreter,
      SetZipSafe True, SetEntryPoint ''__main__'']"

text \<open>The same run with a destination that climbs out of the workspace.\<close>

definition escaping_manifest :: manifest where
  "escaping_manifest =
     [''modules'' \<mapsto> [(''../evil.py'', ''/w/data.txt'')], ''resources'' \<mapsto> []]"

section \<open>Properties of the path functions\<close>

lemma isabs_Cons: "isabs p = (\<exists>q. p = CHR ''/'' # q)"
  by (cases p) (auto simp: isabs_def)

lemma rev_dropWhile_rev_Cons:
  "rev (dropWhile P (rev (c # q))) =
     (if \<forall>x\<in>set q. P x then (if P c then [] else [c]) else c # rev (dropWhile P (rev q)))"
  by (simp add: dropWhile_append)

lemma isabs_dirname: "isabs p \<Longrightarrow> isabs (dirname p)"
proof -
  assume "isabs p"
  then obtain q where p: "p = CHR ''/'' # q" by (auto simp: isabs_Cons)
  define h where "h = rev (dropWhile (\<lambda>c. c \<noteq> CHR ''/'') (rev p))"
  have h: "isabs h"
    unfolding h_def p by (simp only: rev_dropWhile_rev_Cons) (simp add: isabs_def)
  then obtain k where hk: "h = CHR ''/'' # k" by (auto simp: isabs_Cons)
  have "isabs (rev (dropWhile (\<lambda>c. c = CHR ''/'') (rev h)))"
    if "h \<noteq> replicate (length h) (CHR ''/'')"
  proof -
    from that hk have "k \<noteq> replicate (length k) (CHR ''/'')" by simp
    then have "\<not> (\<forall>x\<in>set k. x = CHR ''/'')"
      by (metis replicate_length_same)
    then show ?thesis
      unfolding hk by (simp only: rev_dropWhile_rev_Cons) (simp add: isabs_def)
  qed
  with h show ?thesis by (simp add: dirname_def h_def[symmetric] Let_def)
qed

lemma rev_dropWhile_rev_prefix: "\<exists>s. p = rev (dropWhile P (rev p)) @ s"
proof -
  have "p = rev (dropWhile P (rev p)) @ rev (takeWhile P (rev p))"
    by (metis rev_append rev_rev_ident takeWhile_dropWhile_id)
  then show ?thesis ..
qed

lemma dirname_prefix: "\<exists>s. p = dirname p @ s"
proof -
  define h where "h = rev (dropWhile (\<lambda>c. c \<noteq> CHR ''/'') (rev p))"
  obtain s where s: "p = h @ s" unfolding h_def using rev_dropWhile_rev_prefix by blast
  obtain s' where s': "h = rev (dropWhile (\<lambda>c. c = CHR ''/'') (rev h)) @ s'"
    using rev_dropWhile_rev_prefix by blast
  show ?thesis
  proof (cases "h \<noteq> [] \<and> h \<noteq> replicate (length h) (CHR ''/'')")
    case True
    then have "dirname p = rev (dropWhile (\<lambda>c. c = CHR ''/'') (rev h))"
      by (simp add: dirname_def h_def[symmetric] Let_def)
    with s s' have "p = dirname p @ (s' @ s)" by simp
    then show ?thesis ..
  next
    case False
    then have "dirname p = h" by (auto simp add: dirname_def h_def[symmetric] Let_def)
    with s have "p = dirname p @ s" by simp
    then show ?thesis ..
  qed
qed

lemma not_isabs_dirname: "\<not> isabs p \<Longrightarrow> \<not> isabs (dirname p)"
proof -
  assume rel: "\<not> isabs p"
  obtain s where s: "p = dirname p @ s" using dirname_prefix by blast
  show ?thesis
  proof
    assume "isabs (dirname p)"
    then obtain q where "dirname p = CHR ''/'' # q" by (auto simp: isabs_Cons)
    with s have "p = CHR ''/'' # (q @ s)" by simp
    with rel show False by (simp add: isabs_def)
  qed
qed

lemma isabs_join: "isabs (join a b) = (isabs b \<or> (isabs a \<and> \<not> isabs b) \<or> (a = [] \<and> isabs b))"
  by (cases a) (auto simp add: join_def isabs_def split: list.splits)

lemma isabs_replace_leaf: "isabs (replace_leaf p t) = (isabs p \<or> isabs t)"
  using isabs_dirname[of p] not_isabs_dirname[of p]
  by (auto simp add: replace_leaf_def isabs_join)

section \<open>Properties of dereference_symlinks\<close>

lemma deref_not_link: "fs src = None \<Longrightarrow> dereference_symlinks fs src = Some src"
  by (simp add: dereference_symlinks.simps)

lemma deref_link:
  "fs src = Some t \<Longrightarrow> dereference_symlinks fs src = dereference_symlinks fs (replace_leaf src t)"
  by (subst dereference_symlinks.simps) (simp add: replace_leaf_def)

lemma chain_end_simps [simp]:
  "chain_end p [] = p" "chain_end p (t # ts) = chain_end (replace_leaf p t) ts"
  by (simp_all add: chain_end_def)

lemma deref_along:
  "links_along fs p ts \<Longrightarrow> dereference_symlinks fs p = dereference_symlinks fs (chain_end p ts)"
  by (induction ts arbitrary: p) (auto simp: deref_link)

lemma deref_leaf_chain:
  "leaf_chain fs p ts \<Longrightarrow> dereference_symlinks fs p = Some (chain_end p ts)"
  using deref_along[of fs p ts] deref_not_link[of fs "chain_end p ts"]
  by (simp add: leaf_chain_def)

text \<open>
  A result comes from a finite chain. The proof is by the induction rule of the partial
  function: the property holds of every approximation of the loop.
\<close>

lemma deref_Some_chain:
  assumes "dereference_symlinks fs src = Some r"
  shows "\<exists>ts. leaf_chain fs src ts \<and> r = chain_end src ts"
proof (rule dereference_symlinks.raw_induct
    [where P = "\<lambda>fs src r. \<exists>ts. leaf_chain fs src ts \<and> r = chain_end src ts", OF _ assms])
  fix deref :: "links \<Rightarrow> path \<Rightarrow> path option" and fs src r
  assume IH: "\<And>fs src r. deref fs src = Some r \<Longrightarrow>
                \<exists>ts. leaf_chain fs src ts \<and> r = chain_end src ts"
    and eq: "(case fs src of None \<Rightarrow> Some src
              | Some target \<Rightarrow> deref fs (join (dirname src) target)) = Some r"
  show "\<exists>ts. leaf_chain fs src ts \<and> r = chain_end src ts"
  proof (cases "fs src")
    case None
    with eq have "r = src" by simp
    with None have "leaf_chain fs src [] \<and> r = chain_end src []"
      by (simp add: leaf_chain_def)
    then show ?thesis by blast
  next
    case (Some t)
    with eq have "deref fs (replace_leaf src t) = Some r"
      by (simp add: replace_leaf_def)
    from IH[OF this] obtain ts where
      "leaf_chain fs (replace_leaf src t) ts" "r = chain_end (replace_leaf src t) ts"
      by blast
    with Some have "leaf_chain fs src (t # ts) \<and> r = chain_end src (t # ts)"
      by (simp add: leaf_chain_def)
    then show ?thesis by blast
  qed
qed

lemma links_along_agree:
  "links_along fs p ts \<Longrightarrow> \<forall>q \<in> set (chain_paths p ts). fs' q = fs q \<Longrightarrow> links_along fs' p ts"
  by (induction ts arbitrary: p) auto

lemma chain_end_in_paths: "chain_end p ts \<in> set (chain_paths p ts)"
  by (induction ts arbitrary: p) auto

lemma leaf_chain_agree:
  "leaf_chain fs p ts \<Longrightarrow> \<forall>q \<in> set (chain_paths p ts). fs' q = fs q \<Longrightarrow> leaf_chain fs' p ts"
  using chain_end_in_paths[of p ts] by (auto simp: leaf_chain_def links_along_agree)

text \<open>The chain from a path is unique: any run of links from it is the start of it.\<close>

lemma chain_prefix:
  "links_along fs p ts \<Longrightarrow> leaf_chain fs p ts' \<Longrightarrow>
     length ts \<le> length ts' \<and> leaf_chain fs (chain_end p ts) (drop (length ts) ts')"
proof (induction ts arbitrary: p ts')
  case Nil
  then show ?case by simp
next
  case (Cons t ts)
  then show ?case by (cases ts') (auto simp: leaf_chain_def)
qed

lemma no_chain_on_cycle:
  assumes "links_along fs p ts" "ts \<noteq> []" "chain_end p ts = p"
  shows "\<not> leaf_chain fs p ts'"
proof (induction "length ts'" arbitrary: ts' rule: less_induct)
  case less
  show ?case
  proof
    assume c: "leaf_chain fs p ts'"
    from chain_prefix[OF assms(1) c] assms(3)
    have le: "length ts \<le> length ts'" and c': "leaf_chain fs p (drop (length ts) ts')"
      by simp_all
    from le assms(2) have "length (drop (length ts) ts') < length ts'" by (cases ts) auto
    from less[OF this] c' show False by blast
  qed
qed

lemma deref_cycle:
  assumes "links_along fs p ts" "ts \<noteq> []" "chain_end p ts = p"
  shows "dereference_symlinks fs p = None"
proof (cases "dereference_symlinks fs p")
  case (Some r)
  from deref_Some_chain[OF this] no_chain_on_cycle[OF assms] show ?thesis by blast
qed simp

lemma links_along_append:
  "links_along fs p (ts @ us) = (links_along fs p ts \<and> links_along fs (chain_end p ts) us)"
  by (induction ts arbitrary: p) auto

lemma chain_end_append: "chain_end p (ts @ us) = chain_end (chain_end p ts) us"
  by (simp add: chain_end_def)

lemma deref_revisit:
  assumes "links_along fs p (ts @ us)" "us \<noteq> []" "chain_end p (ts @ us) = chain_end p ts"
  shows "dereference_symlinks fs p = None"
proof -
  from assms(1) have ts: "links_along fs p ts" and us: "links_along fs (chain_end p ts) us"
    by (simp_all add: links_along_append)
  from assms(3) have "chain_end (chain_end p ts) us = chain_end p ts"
    by (simp add: chain_end_append)
  from deref_cycle[OF us assms(2) this] deref_along[OF ts] show ?thesis by simp
qed

lemma deref_result_not_link:
  assumes "dereference_symlinks fs src = Some r"
  shows "fs r = None"
  by (rule dereference_symlinks.raw_induct[where P = "\<lambda>fs src r. fs r = None", OF _ assms])
     (auto split: option.splits)

lemma isabs_chain_end: "isabs (chain_end p ts) = (isabs p \<or> (\<exists>t\<in>set ts. isabs t))"
  by (induction ts arbitrary: p) (auto simp: isabs_replace_leaf)


lemmas path_eval = join_def dirname_def isabs_def replace_leaf_def leaf_chain_def

section \<open>Properties of programs\<close>

lemma bindE:
  assumes "bind m f = Some (tr, r)"
  obtains (raised) e where "m = Some (tr, Inl e)" "r = Inl e"
        | (continued) es x es' where "m = Some (es, Inr x)" "f x = Some (es', r)" "tr = es @ es'"
  using assms by (auto simp: bind_def split: option.splits sum.splits prod.splits)

lemma bind_call:
  "bind (call ev (Inl e)) f = Some ([ev], Inl e)"
  "bind (call ev (Inr x)) f = (case f x of None \<Rightarrow> None | Some (es, r) \<Rightarrow> Some (ev # es, r))"
  by (auto simp: bind_def call_def split: option.splits)

lemma bind_call_Inr_eq:
  "bind (call ev (Inr v)) f = Some (tr, r) \<longleftrightarrow> (\<exists>es. f v = Some (es, r) \<and> tr = ev # es)"
  by (auto simp: bind_def call_def split: option.splits)

lemma bind_ret [simp]: "bind (ret x) f = f x"
  by (cases "f x") (auto simp: bind_def ret_def)

lemma bind_raise [simp]: "bind (raise e) f = Some ([], Inl e)"
  by (simp add: bind_def raise_def)

lemma bind_Some_Inl [simp]: "bind (Some (es, Inl e)) f = Some (es, Inl e)"
  by (simp add: bind_def)

lemma bind_returned [simp]:
  "bind (returned None) f = None"
  "bind (returned (Some x)) f = f x"
   apply (simp add: bind_def returned_def)
  apply (cases "f x") apply (auto simp: bind_def returned_def)
  done

lemma try_finally_rmtree:
  "try_finally body (rmtree env d True) =
     (case body of None \<Rightarrow> None | Some (es, rb) \<Rightarrow> Some (es @ [Rmtree d True], rb))"
  by (auto simp: try_finally_def rmtree_def call_def split: option.splits)

lemma split_at_unique:
  assumes "xs @ a # ys = X @ a' # Y" "P a" "\<forall>x \<in> set X. \<not> P x" "\<forall>y \<in> set Y. \<not> P y"
  shows "xs = X \<and> a = a' \<and> ys = Y"
  using assms
proof (induction xs arbitrary: X)
  case Nil
  then show ?case by (cases X) auto
next
  case (Cons x xs)
  then show ?case by (cases X) auto
qed

section \<open>The two loops of main\<close>

text \<open>
  Both loops run the same body, with \<open>add_source\<close> or \<open>add_resource\<close>; the lemmas are
  proved once, for either event and label.
\<close>

lemma register_step:
  "bind (returned (dereference_symlinks fs src)) (\<lambda>s. call (ev s dst) (link_into env l b s dst))
     = Some (es, r)
   \<longleftrightarrow> (\<exists>s. dereference_symlinks fs src = Some s \<and> es = [ev s dst]
          \<and> r = link_into env l b s dst)"
  by (cases "dereference_symlinks fs src") (auto simp: call_def)

lemma loop_events:
  "for_items (\<lambda>b (dst, src). bind (returned (dereference_symlinks fs src))
       (\<lambda>s. call (ev s dst) (link_into env l b s dst))) b items = Some (es, r)
   \<Longrightarrow> \<forall>e \<in> set es. \<exists>s d. e = ev s d"
proof (induction items arbitrary: b es r)
  case Nil
  then show ?case by (simp add: ret_def)
next
  case (Cons kv rest)
  obtain dst src where kv: "kv = (dst, src)" by (cases kv)
  from Cons.prems[unfolded kv for_items.simps] show ?case
  proof (cases rule: bindE)
    case (raised e)
    then show ?thesis by (clarsimp simp: register_step) blast
  next
    case (continued es1 b' es')
    from continued(1) have "\<forall>e\<in>set es1. \<exists>s d. e = ev s d"
      by (clarsimp simp: register_step) blast
    with Cons.IH[OF continued(2)] continued(3) show ?thesis by auto
  qed
qed

lemma loop_success:
  "for_items (\<lambda>b (dst, src). bind (returned (dereference_symlinks fs src))
       (\<lambda>s. call (ev s dst) (link_into env l b s dst))) b items = Some (es, Inr b')
   \<Longrightarrow> list_all2 (\<lambda>(dst, src) e. \<exists>s. dereference_symlinks fs src = Some s \<and> e = ev s dst) items es
     \<and> (\<exists>added. chroot b' = chroot b @ added
          \<and> list_all2 (\<lambda>(dst, src) (d, l', bytes). d = dst \<and> l' = l
               \<and> (\<exists>s. dereference_symlinks fs src = Some s \<and> file_content env s = Some bytes))
              items added)
     \<and> info b' = info b \<and> builder_interpreter b' = builder_interpreter b
     \<and> builder_path b' = builder_path b
     \<and> (\<forall>(dst, src) \<in> set items. \<not> escapes dst)"
proof (induction items arbitrary: b es)
  case Nil
  then show ?case by (simp add: ret_def)
next
  case (Cons kv rest)
  obtain dst src where kv: "kv = (dst, src)" by (cases kv)
  from Cons.prems[unfolded kv for_items.simps] show ?case
  proof (cases rule: bindE)
    case (raised e)
    then show ?thesis by simp
  next
    case (continued es1 b1 es')
    from continued(1) obtain s bytes where
      s: "dereference_symlinks fs src = Some s" "\<not> escapes dst" "file_content env s = Some bytes"
        "b1 = b\<lparr>chroot := chroot b @ [(dst, l, bytes)]\<rparr>" "es1 = [ev s dst]"
      by (auto simp: register_step) (auto simp: link_into_def split: if_splits option.splits)
    from Cons.IH[OF continued(2)] obtain added where
      IH: "list_all2 (\<lambda>(dst, src) e. \<exists>s. dereference_symlinks fs src = Some s \<and> e = ev s dst) rest es'"
        "chroot b' = chroot b1 @ added"
        "list_all2 (\<lambda>(dst, src) (d, l', bytes). d = dst \<and> l' = l
               \<and> (\<exists>s. dereference_symlinks fs src = Some s \<and> file_content env s = Some bytes))
              rest added"
        "info b' = info b1" "builder_interpreter b' = builder_interpreter b1"
        "builder_path b' = builder_path b1" "\<forall>(dst, src) \<in> set rest. \<not> escapes dst"
      by blast
    have c: "chroot b' = chroot b @ ((dst, l, bytes) # added)"
      using IH(2) s(4) by simp
    have a: "list_all2 (\<lambda>(dst, src) (d, l', bytes). d = dst \<and> l' = l
               \<and> (\<exists>s. dereference_symlinks fs src = Some s \<and> file_content env s = Some bytes))
              (kv # rest) ((dst, l, bytes) # added)"
      using IH(3) s kv by simp
    have e: "list_all2 (\<lambda>(dst, src) e. \<exists>s. dereference_symlinks fs src = Some s \<and> e = ev s dst)
              (kv # rest) es"
      using IH(1) s kv continued(3) by simp
    from c a have "\<exists>added. chroot b' = chroot b @ added
          \<and> list_all2 (\<lambda>(dst, src) (d, l', bytes). d = dst \<and> l' = l
               \<and> (\<exists>s. dereference_symlinks fs src = Some s \<and> file_content env s = Some bytes))
              (kv # rest) added" by blast
    moreover have "info b' = info b" "builder_interpreter b' = builder_interpreter b"
      "builder_path b' = builder_path b" using IH s by simp_all
    moreover have "\<forall>(dst, src) \<in> set (kv # rest). \<not> escapes dst"
      using IH(7) s(2) kv by simp
    ultimately show ?thesis using e by blast
  qed
qed

lemma source_loop_events:
  assumes "for_items (\<lambda>b (dst, src). bind (returned (dereference_symlinks (symlinks env) src))
       (\<lambda>s. add_source env b s dst)) b items = Some (es, r)"
  shows "\<forall>e \<in> set es. is_registration e"
  using loop_events[OF assms[unfolded add_source_def]] by (auto simp: is_registration_def)

lemma resource_loop_events:
  assumes "for_items (\<lambda>b (dst, src). bind (returned (dereference_symlinks (symlinks env) src))
       (\<lambda>s. add_resource env b s dst)) b items = Some (es, r)"
  shows "\<forall>e \<in> set es. is_registration e"
  using loop_events[OF assms[unfolded add_resource_def]] by (auto simp: is_registration_def)

lemmas source_loop_success = loop_success[where ev = AddSource and l = Source, folded add_source_def]

lemmas resource_loop_success = loop_success[where ev = AddResource and l = Resource, folded add_resource_def]

lemma registration_not_build: "is_registration e \<Longrightarrow> e \<noteq> Build b out"
  by (auto simp: is_registration_def)

lemma registration_not_builder: "is_registration e \<Longrightarrow> e \<noteq> NewPEXBuilder d i"
  by (auto simp: is_registration_def)

lemma filter_registrations: "\<forall>e \<in> set es. is_registration e \<Longrightarrow> filter is_registration es = es"
  by (simp add: filter_id_conv)

lemma added_keys:
  "list_all2 (\<lambda>(dst, src) (d, l', bytes). d = dst \<and> Q dst src l' bytes) items added
   \<Longrightarrow> map fst added = map fst items"
  by (induction items added rule: list_all2_induct) auto

lemma added_content:
  "list_all2 (\<lambda>(dst, src) (d, l', bytes). d = dst \<and> Q dst src l' bytes) items added
   \<Longrightarrow> (dst, src) \<in> set items
   \<Longrightarrow> \<exists>l' bytes. Q dst src l' bytes \<and> (dst, l', bytes) \<in> set added"
  by (induction items added rule: list_all2_induct) auto

section \<open>The shape of a run\<close>

text \<open>Every way the body of the \<^verbatim>\<open>try\<close> statement can end, with the calls it has made.\<close>

lemma try_body_cases:
  assumes "try_body env opts output m d = Some (tr, r)"
  obtains
    (no_interpreter) e where
      "from_binary_result env (opt_python opts) = Inl e"
      "tr = [FromBinary (opt_python opts)]" "r = Inl e"
  | (failed) found es e where
      "from_binary_result env (opt_python opts) = Inr found"
      "tr = [FromBinary (opt_python opts),
             NewPEXBuilder d (PythonInterpreter (opt_python opts) (identity found)
               [((''setuptools'', ''1.0''),
                 join (BUCK_ROOT (script_file env)) ''third-party/py/setuptools'')]),
             SetZipSafe True, SetEntryPoint (opt_entry_point opts)] @ es"
      "\<forall>e \<in> set es. is_registration e" "r = Inl e"
  | (built) found ms rs es1 es2 b0 b1 b2 where
      "from_binary_result env (opt_python opts) = Inr found"
      "m ''modules'' = Some ms" "m ''resources'' = Some rs"
      "builder_path b0 = d"
      "builder_interpreter b0 = PythonInterpreter (opt_python opts) (identity found)
               [((''setuptools'', ''1.0''),
                 join (BUCK_ROOT (script_file env)) ''third-party/py/setuptools'')]"
      "zip_safe (info b0) = True" "entry_point (info b0) = opt_entry_point opts"
      "chroot b0 = []"
      "for_items (\<lambda>b (dst, src). bind (returned (dereference_symlinks (symlinks env) src))
         (\<lambda>s. add_source env b s dst)) b0 ms = Some (es1, Inr b1)"
      "for_items (\<lambda>b (dst, src). bind (returned (dereference_symlinks (symlinks env) src))
         (\<lambda>s. add_resource env b s dst)) b1 rs = Some (es2, Inr b2)"
      "tr = [FromBinary (opt_python opts),
             NewPEXBuilder d (PythonInterpreter (opt_python opts) (identity found)
               [((''setuptools'', ''1.0''),
                 join (BUCK_ROOT (script_file env)) ''third-party/py/setuptools'')]),
             SetZipSafe True, SetEntryPoint (opt_entry_point opts)] @ es1 @ es2 @ [Build b2 output]"
      "r = (case build_failure env b2 output of Some e \<Rightarrow> Inl e | None \<Rightarrow> Inr ())"
proof -
  from assms[unfolded try_body_def] show thesis
  proof (cases rule: bindE)
    case (raised e)
    then show ?thesis
      by (intro no_interpreter[of e]) (auto simp: from_binary_def call_def)
  next
    case (continued es0 found es')
    let ?I = "PythonInterpreter (opt_python opts) (identity found)
               [((''setuptools'', ''1.0''),
                 join (BUCK_ROOT (script_file env)) ''third-party/py/setuptools'')]"
    let ?pre = "[FromBinary (opt_python opts), NewPEXBuilder d ?I,
                 SetZipSafe True, SetEntryPoint (opt_entry_point opts)]"
    define b0 where "b0 = \<lparr>builder_path = d, builder_interpreter = ?I,
      info = (default_info env)\<lparr>zip_safe := True, entry_point := opt_entry_point opts\<rparr>,
      chroot = []\<rparr>"
    from continued(1) have fb: "from_binary_result env (opt_python opts) = Inr found"
      and es0: "es0 = [FromBinary (opt_python opts)]"
      by (auto simp: from_binary_def call_def)
    from continued(2) obtain es3 where
      rest: "bind (getitem m ''modules'') (\<lambda>modules.
         bind (for_items (\<lambda>b (dst, src). bind (returned (dereference_symlinks (symlinks env) src))
                 (\<lambda>s. add_source env b s dst)) b0 modules) (\<lambda>b1.
         bind (getitem m ''resources'') (\<lambda>resources.
         bind (for_items (\<lambda>b (dst, src). bind (returned (dereference_symlinks (symlinks env) src))
                 (\<lambda>s. add_resource env b s dst)) b1 resources) (\<lambda>b2.
         build env b2 output)))) = Some (es3, r)"
      and es': "es' = [NewPEXBuilder d ?I, SetZipSafe True, SetEntryPoint (opt_entry_point opts)] @ es3"
      by (auto simp: Let_def PEXBuilder_def set_zip_safe_def set_entry_point_def
            bind_call_Inr_eq b0_def)
    have tr: "tr = ?pre @ es3" using continued(3) es0 es' by simp
    from rest show ?thesis
    proof (cases rule: bindE)
      case (raised e)
      with tr fb show ?thesis
        by (intro failed[of found "[]" e])
           (auto simp: getitem_def raise_def ret_def split: option.splits)
    next
      case (continued esa ms es4)
      then have ms: "m ''modules'' = Some ms" and esa: "esa = []"
        by (auto simp: getitem_def raise_def ret_def split: option.splits)
      from continued(2) show ?thesis
      proof (cases rule: bindE)
        case (raised e)
        from source_loop_events[OF raised(1)] raised tr fb continued(3) esa show ?thesis
          by (intro failed[of found es4 e]) auto
      next
        case loop1: (continued es1 b1 es5)
        note ev1 = source_loop_events[OF loop1(1)]
        from loop1(2) show ?thesis
        proof (cases rule: bindE)
          case (raised e)
          with ev1 tr fb continued(3) esa loop1(3) show ?thesis
            by (intro failed[of found es1 e])
               (auto simp: getitem_def raise_def ret_def split: option.splits)
        next
          case res: (continued esb rs es6)
          then have rs: "m ''resources'' = Some rs" and esb: "esb = []"
            by (auto simp: getitem_def raise_def ret_def split: option.splits)
          from res(2) show ?thesis
          proof (cases rule: bindE)
            case (raised e)
            from resource_loop_events[OF raised(1)] raised ev1 tr fb continued(3) esa loop1(3) res(3) esb
            show ?thesis
              by (intro failed[of found "es1 @ es6" e]) auto
          next
            case loop2: (continued es2 b2 es7)
            from loop2(2) have es7: "es7 = [Build b2 output]"
              and r: "r = (case build_failure env b2 output of Some e \<Rightarrow> Inl e | None \<Rightarrow> Inr ())"
              by (auto simp: build_def call_def)
            have "tr = ?pre @ es1 @ es2 @ [Build b2 output]"
              using tr continued(3) esa loop1(3) res(3) esb loop2(3) es7 by simp
            with fb ms rs loop1(1) loop2(1) r show ?thesis
              by (intro built[of found ms rs b0 es1 b1 es2 b2]) (auto simp: b0_def)
          qed
        qed
      qed
    qed
  qed
qed

text \<open>Every way main can end.\<close>

lemma main_cases:
  assumes "main env c = Some (tr, r)"
  obtains
    (exited) x where "optparse_exit c = Some x"
      "tr = [case x of HelpRequested \<Rightarrow> PrintHelp | BadOption msg \<Rightarrow> ParserError msg]"
      "r = Inl (SystemExit (case x of HelpRequested \<Rightarrow> 0 | BadOption msg \<Rightarrow> 2))"
  | (usage) "optparse_exit c = None" "length (positional c) \<noteq> 1"
      "tr = [ParserError '''output' positional argument is required'']" "r = Inl (SystemExit 2)"
  | (no_manifest) e where "optparse_exit c = None" "length (positional c) = 1"
      "stdin_manifest env = Inl e" "tr = [JsonLoad]" "r = Inl e"
  | (no_scratch) m e where "optparse_exit c = None" "length (positional c) = 1"
      "stdin_manifest env = Inr m" "mkdtemp_result env = Inl e" "tr = [JsonLoad, Mkdtemp]" "r = Inl e"
  | (ran) m d es rb where "optparse_exit c = None" "length (positional c) = 1"
      "stdin_manifest env = Inr m" "mkdtemp_result env = Inr d"
      "try_body env (option_values env c) (positional c ! 0) m d = Some (es, rb)"
      "tr = [JsonLoad, Mkdtemp] @ es @ [Rmtree d True]"
      "r = (case rb of Inl e \<Rightarrow> Inl e | Inr _ \<Rightarrow> Inr None)"
proof (cases "optparse_exit c")
  case (Some x)
  with assms show ?thesis
    by (intro exited[of x]; cases x)
       (auto simp: main_def parse_args_def print_help_def parser_error_def bind_call)
next
  case decoded: None
  show ?thesis
  proof (cases "length (positional c) = 1")
    case False
    with assms decoded show ?thesis
      by (intro usage) (auto simp: main_def parse_args_def parser_error_def bind_call)
  next
    case one: True
    show ?thesis
    proof (cases "stdin_manifest env")
      case (Inl e)
      with assms decoded one show ?thesis
        by (intro no_manifest[of e]) (auto simp: main_def parse_args_def json_load_def bind_call)
    next
      case m: (Inr m)
      show ?thesis
      proof (cases "mkdtemp_result env")
        case (Inl e)
        with assms decoded one m show ?thesis
          by (intro no_scratch[of m e])
             (auto simp: main_def parse_args_def json_load_def mkdtemp_def bind_call)
      next
        case d: (Inr d)
        let ?body = "try_body env (option_values env c) (positional c ! 0) m d"
        from assms decoded one m d obtain es' where
          run: "bind (try_finally ?body (rmtree env d True)) (\<lambda>_. ret None) = Some (es', r)"
          and tr: "tr = JsonLoad # Mkdtemp # es'"
          by (auto simp: main_def parse_args_def json_load_def mkdtemp_def bind_call_Inr_eq)
        from run obtain es rb where body: "?body = Some (es, rb)"
          by (cases ?body) (auto simp: try_finally_rmtree bind_def)
        with run have "es' = es @ [Rmtree d True]"
          and "r = (case rb of Inl e \<Rightarrow> Inl e | Inr _ \<Rightarrow> Inr None)"
          by (auto simp: try_finally_rmtree bind_def ret_def split: sum.splits)
        with decoded one m d body tr show ?thesis
          by (intro ran[of m d es rb]) auto
      qed
    qed
  qed
qed

lemma main_exited:
  "optparse_exit c = Some x \<Longrightarrow>
     main env c =
       Some ([case x of HelpRequested \<Rightarrow> PrintHelp | BadOption msg \<Rightarrow> ParserError msg],
             Inl (SystemExit (case x of HelpRequested \<Rightarrow> 0 | BadOption msg \<Rightarrow> 2)))"
  by (cases x) (simp_all add: main_def parse_args_def print_help_def parser_error_def bind_call)

lemma main_usage:
  "optparse_exit c = None \<Longrightarrow> length (positional c) \<noteq> 1 \<Longrightarrow>
     main env c = Some ([ParserError '''output' positional argument is required''], Inl (SystemExit 2))"
  by (simp add: main_def parse_args_def parser_error_def bind_call)

lemma main_ran:
  assumes "optparse_exit c = None" "length (positional c) = 1"
    and "stdin_manifest env = Inr m" "mkdtemp_result env = Inr d"
  shows "main env c =
     (case try_body env (option_values env c) (positional c ! 0) m d of
        None \<Rightarrow> None
      | Some (es, rb) \<Rightarrow>
          Some ([JsonLoad, Mkdtemp] @ es @ [Rmtree d True],
                case rb of Inl e \<Rightarrow> Inl e | Inr _ \<Rightarrow> Inr None))"
proof (cases "try_body env (option_values env c) (positional c ! 0) m d")
  case None
  with assms show ?thesis
    by (simp add: main_def parse_args_def json_load_def mkdtemp_def call_def
          try_finally_rmtree bind_def ret_def)
next
  case (Some p)
  obtain es rb where p: "p = (es, rb)" by (cases p)
  from assms Some show ?thesis
    unfolding p
    by (cases rb)
       (simp_all add: main_def parse_args_def json_load_def mkdtemp_def call_def
          try_finally_rmtree bind_def ret_def)
qed

lemma try_body_rmtree_fails [simp]:
  "try_body (env\<lparr>rmtree_fails := f\<rparr>) opts output m d = try_body env opts output m d"
proof -
  have "add_source (env\<lparr>rmtree_fails := f\<rparr>) = add_source env"
    "add_resource (env\<lparr>rmtree_fails := f\<rparr>) = add_resource env"
    "build (env\<lparr>rmtree_fails := f\<rparr>) = build env"
    "PEXBuilder (env\<lparr>rmtree_fails := f\<rparr>) = PEXBuilder env"
    "from_binary (env\<lparr>rmtree_fails := f\<rparr>) = from_binary env"
    by (simp_all add: fun_eq_iff add_source_def add_resource_def link_into_def build_def
          PEXBuilder_def from_binary_def)
  then show ?thesis by (simp add: try_body_def)
qed

lemma option_values_rmtree_fails [simp]:
  "option_values (env\<lparr>rmtree_fails := f\<rparr>) c = option_values env c"
  by (simp add: option_values_def split: option.splits)

section \<open>BUCK_ROOT\<close>

text \<open>Splitting at a separator and joining with it gives the string back.\<close>

lemma split_sep_nonempty: "split_sep c xs \<noteq> []"
  by (induction xs) (auto split: list.splits)

lemma split_sep_append: "split_sep c (xs @ c # ys) = split_sep c xs @ split_sep c ys"
proof (induction xs)
  case Nil
  show ?case by simp
next
  case (Cons x xs)
  then show ?case
    using split_sep_nonempty[of c xs] by (cases "split_sep c xs") auto
qed

lemma join_sep_Cons: "join_sep sep ((x # w) # ws) = x # join_sep sep (w # ws)"
  by (cases ws) auto

lemma join_split_sep: "join_sep [c] (split_sep c xs) = xs"
proof (induction xs)
  case Nil
  show ?case by simp
next
  case (Cons x xs)
  show ?case
  proof (cases "x = c")
    case True
    with Cons show ?thesis
      using split_sep_nonempty[of c xs] by (cases "split_sep c xs") auto
  next
    case False
    with Cons show ?thesis
      using split_sep_nonempty[of c xs] by (cases "split_sep c xs") (auto simp: join_sep_Cons)
  qed
qed

lemma BUCK_ROOT_of_script:
  "BUCK_ROOT (root @ ''/src/com/facebook/buck/python/pex.py'') = root"
proof -
  have "split_sep (CHR ''/'') (root @ CHR ''/'' # ''src/com/facebook/buck/python/pex.py'')
      = split_sep (CHR ''/'') root @ [''src'', ''com'', ''facebook'', ''buck'', ''python'', ''pex.py'']"
    by (simp only: split_sep_append) simp
  then show ?thesis
    using join_split_sep[of "CHR ''/''" root] by (simp add: BUCK_ROOT_def)
qed

section \<open>The sample run, evaluated\<close>

lemmas run_eval =
  main_def parse_args_def option_values_def print_help_def parser_error_def json_load_def getitem_def mkdtemp_def rmtree_def
  from_binary_def PythonInterpreter_def PEXBuilder_def set_zip_safe_def set_entry_point_def
  add_source_def add_resource_def link_into_def build_def try_body_def
  bind_def try_finally_def call_def ret_def raise_def returned_def
  dereference_symlinks.simps join_def dirname_def isabs_def BUCK_ROOT_def escapes_def
  sample_env_def sample_cli_def sample_manifest_def sample_interpreter_def sample_builder_def
  sample_setup_def escaping_manifest_def Let_def

lemma sample_run:
  "main sample_env sample_cli =
     Some (sample_setup @
           [AddSource ''/w/gen/a.py'' ''app/main.py'', AddResource ''/w/data.txt'' ''app/data.txt'',
            Build sample_builder ''out.pex'', Rmtree ''/tmp/pex'' True],
           Inr None)"
  by (simp add: run_eval)

lemma sample_failed_build:
  "main (sample_env\<lparr>build_failure := \<lambda>b output. Some (Failure ''disk full'')\<rparr>) sample_cli =
     Some (sample_setup @
           [AddSource ''/w/gen/a.py'' ''app/main.py'', AddResource ''/w/data.txt'' ''app/data.txt'',
            Build sample_builder ''out.pex'', Rmtree ''/tmp/pex'' True],
           Inl (Failure ''disk full''))"
  by (simp add: run_eval)

lemma sample_escape:
  "main (sample_env\<lparr>stdin_manifest := Inr escaping_manifest\<rparr>) sample_cli =
     Some (sample_setup @ [AddSource ''/w/data.txt'' ''../evil.py'', Rmtree ''/tmp/pex'' True],
           Inl (Failure ''destination escapes the workspace''))"
  by (simp add: run_eval)

lemma sample_usage:
  "main sample_env (sample_cli\<lparr>positional := []\<rparr>) =
     Some ([ParserError '''output' positional argument is required''], Inl (SystemExit 2))"
  by (simp add: run_eval)

lemma sample_help:
  "main sample_env (sample_cli\<lparr>optparse_exit := Some HelpRequested, positional := []\<rparr>) =
     Some ([PrintHelp], Inl (SystemExit 0))"
  by (simp add: run_eval)

section \<open>Claims about the archive\<close>

text \<open>
  C1. Take a manifest whose \<open>modules\<close> and \<open>resources\<close> have disjoint destination paths
  (each collection a dictionary, so with distinct keys). In a successful run the entries
  registered with the builder are exactly the manifest's: one \<open>add_source\<close> for each
  module and one \<open>add_resource\<close> for each resource, in the order of iteration, each with
  the source path that dereference_symlinks returned; and the builder handed to \<open>build\<close>
  with the output path seals into an archive whose paths are exactly those destinations,
  each holding the bytes of its resolved source. The two collections need not be non-empty
  for this. The builder is the one modelled from the spec.
\<close>

theorem build_registers_manifest:
  assumes "main env c = Some (tr, Inr None)"
    and "stdin_manifest env = Inr m" "m ''modules'' = Some ms" "m ''resources'' = Some rs"
    and "distinct (map fst ms)" "distinct (map fst rs)"
    and "fst ` set ms \<inter> fst ` set rs = {}"
  shows "\<exists>es1 es2 b.
           filter is_registration tr = es1 @ es2
         \<and> list_all2 (\<lambda>(dst, src) e. \<exists>s. dereference_symlinks (symlinks env) src = Some s
                         \<and> e = AddSource s dst) ms es1
         \<and> list_all2 (\<lambda>(dst, src) e. \<exists>s. dereference_symlinks (symlinks env) src = Some s
                         \<and> e = AddResource s dst) rs es2
         \<and> Build b (positional c ! 0) \<in> set tr
         \<and> map fst (archive_files (seal b)) = map fst ms @ map fst rs
         \<and> (\<forall>(dst, src) \<in> set (ms @ rs). \<exists>s bytes.
               dereference_symlinks (symlinks env) src = Some s
             \<and> file_content env s = Some bytes
             \<and> map_of (archive_files (seal b)) dst = Some bytes)"
  using assms(1)
proof (cases rule: main_cases)
  case (ran m' d es rb)
  with assms(2) have m': "m' = m" by simp
  from ran(7) obtain u where rb: "rb = Inr u" by (cases rb) auto
  from ran(5) show ?thesis
  proof (cases rule: try_body_cases)
    case (no_interpreter e)
    with rb show ?thesis by simp
  next
    case (failed found es' e)
    with rb show ?thesis by simp
  next
    case (built found ms' rs' es1 es2 b0 b1 b2)
    from built(2,3) m' assms(3,4) have ms': "ms' = ms" and rs': "rs' = rs" by simp_all
    note l1 = source_loop_success[OF built(9)[unfolded ms']]
    note l2 = resource_loop_success[OF built(10)[unfolded rs']]
    from l1 built(8) obtain a1 where a1: "chroot b1 = a1"
      "list_all2 (\<lambda>(dst, src) (d, l', bytes). d = dst \<and> l' = Source
         \<and> (\<exists>s. dereference_symlinks (symlinks env) src = Some s \<and> file_content env s = Some bytes))
         ms a1" by auto
    from l2 a1(1) obtain a2 where a2: "chroot b2 = a1 @ a2"
      "list_all2 (\<lambda>(dst, src) (d, l', bytes). d = dst \<and> l' = Resource
         \<and> (\<exists>s. dereference_symlinks (symlinks env) src = Some s \<and> file_content env s = Some bytes))
         rs a2" by auto
    let ?files = "archive_files (seal b2)"
    have files: "?files = map (\<lambda>(dst, l, bytes). (dst, bytes)) (a1 @ a2)"
      by (simp add: seal_def a2(1))
    have keys: "map fst ?files = map fst ms @ map fst rs"
      using added_keys[OF a1(2)] added_keys[OF a2(2)]
      by (simp add: files comp_def case_prod_unfold)
    have dist: "distinct (map fst ?files)"
      using keys assms(5-7) by auto
    have content: "\<exists>s bytes. dereference_symlinks (symlinks env) src = Some s
             \<and> file_content env s = Some bytes \<and> map_of ?files dst = Some bytes"
      if "(dst, src) \<in> set (ms @ rs)" for dst src
    proof -
      from that added_content[OF a1(2), of dst src] added_content[OF a2(2), of dst src]
      obtain l' s bytes where
        "dereference_symlinks (symlinks env) src = Some s" "file_content env s = Some bytes"
        "(dst, l', bytes) \<in> set (a1 @ a2)" by auto
      moreover from this(3) have "(dst, bytes) \<in> set ?files"
        unfolding files by force
      ultimately show ?thesis using map_of_is_SomeI[OF dist] by blast
    qed
    have reg: "filter is_registration tr = es1 @ es2"
      using ran(6) built(11) filter_registrations[OF source_loop_events[OF built(9)]]
        filter_registrations[OF resource_loop_events[OF built(10)]]
      by (simp add: is_registration_def)
    have "Build b2 (positional c ! 0) \<in> set tr" using ran(6) built(11) by simp
    with reg l1 l2 keys content show ?thesis by blast
  qed
next
  case (exited x)
  then show ?thesis by simp
qed simp_all

theorem build_registers_manifest_witness:
  "main sample_env sample_cli =
     Some (sample_setup @
           [AddSource ''/w/gen/a.py'' ''app/main.py'', AddResource ''/w/data.txt'' ''app/data.txt'',
            Build sample_builder ''out.pex'', Rmtree ''/tmp/pex'' True],
           Inr None)
   \<and> stdin_manifest sample_env = Inr sample_manifest
   \<and> sample_manifest ''modules'' = Some [(''app/main.py'', ''/w/a.py'')]
   \<and> sample_manifest ''resources'' = Some [(''app/data.txt'', ''/w/data.txt'')]
   \<and> distinct (map fst [(''app/main.py'', ''/w/a.py'')])
   \<and> distinct (map fst [(''app/data.txt'', ''/w/data.txt'')])
   \<and> fst ` set [(''app/main.py'', ''/w/a.py'')] \<inter> fst ` set [(''app/data.txt'', ''/w/data.txt'')] = {}
   \<and> (\<exists>es1 es2 b.
          filter is_registration
            (sample_setup @
             [AddSource ''/w/gen/a.py'' ''app/main.py'', AddResource ''/w/data.txt'' ''app/data.txt'',
              Build sample_builder ''out.pex'', Rmtree ''/tmp/pex'' True]) = es1 @ es2
        \<and> list_all2 (\<lambda>(dst, src) e. \<exists>s. dereference_symlinks (symlinks sample_env) src = Some s
                        \<and> e = AddSource s dst) [(''app/main.py'', ''/w/a.py'')] es1
        \<and> list_all2 (\<lambda>(dst, src) e. \<exists>s. dereference_symlinks (symlinks sample_env) src = Some s
                        \<and> e = AddResource s dst) [(''app/data.txt'', ''/w/data.txt'')] es2
        \<and> Build b (positional sample_cli ! 0) \<in>
            set (sample_setup @
             [AddSource ''/w/gen/a.py'' ''app/main.py'', AddResource ''/w/data.txt'' ''app/data.txt'',
              Build sample_builder ''out.pex'', Rmtree ''/tmp/pex'' True])
        \<and> map fst (archive_files (seal b))
            = map fst [(''app/main.py'', ''/w/a.py'')] @ map fst [(''app/data.txt'', ''/w/data.txt'')]
        \<and> (\<forall>(dst, src) \<in> set ([(''app/main.py'', ''/w/a.py'')] @ [(''app/data.txt'', ''/w/data.txt'')]).
              \<exists>s bytes. dereference_symlinks (symlinks sample_env) src = Some s
                \<and> file_content sample_env s = Some bytes
                \<and> map_of (archive_files (seal b)) dst = Some bytes))"
proof -
  have h2: "stdin_manifest sample_env = Inr sample_manifest" by (simp add: sample_env_def)
  have h3: "sample_manifest ''modules'' = Some [(''app/main.py'', ''/w/a.py'')]"
    by (simp add: sample_manifest_def)
  have h4: "sample_manifest ''resources'' = Some [(''app/data.txt'', ''/w/data.txt'')]"
    by (simp add: sample_manifest_def)
  have h5: "distinct (map fst [(''app/main.py'', ''/w/a.py'')])" by simp
  have h6: "distinct (map fst [(''app/data.txt'', ''/w/data.txt'')])" by simp
  have h7: "fst ` set [(''app/main.py'', ''/w/a.py'')] \<inter> fst ` set [(''app/data.txt'', ''/w/data.txt'')] = {}"
    by simp
  from build_registers_manifest[OF sample_run h2 h3 h4 h5 h6 h7] sample_run h2 h3 h4 h5 h6 h7
  show ?thesis by (intro conjI)
qed

section \<open>Claims about dereference_symlinks\<close>

text \<open>
  C2. When the final component of \<open>src\<close> starts a chain of \<open>length ts\<close> symbolic links that
  ends at a path that is not a link, dereference_symlinks returns the end of the chain: the
  path obtained by replacing the leaf with each link's text in turn, joined against the
  directory of the link. With no link (\<open>ts = []\<close>) the input comes back unchanged. Only the
  links at the paths of the chain are read: under any other link table that agrees with
  \<open>fs\<close> on those paths the result is the same, so a link at a directory component is never
  followed.
\<close>

theorem dereference_symlinks_leaf_chain:
  assumes "leaf_chain fs src ts"
  shows "dereference_symlinks fs src = Some (chain_end src ts)
       \<and> (ts = [] \<longrightarrow> dereference_symlinks fs src = Some src)
       \<and> ((\<forall>q \<in> set (chain_paths src ts). fs' q = fs q) \<longrightarrow>
            dereference_symlinks fs' src = Some (chain_end src ts))"
proof (intro conjI impI)
  show "dereference_symlinks fs src = Some (chain_end src ts)"
    using assms by (rule deref_leaf_chain)
  then show "dereference_symlinks fs src = Some src" if "ts = []"
    using that by simp
  show "dereference_symlinks fs' src = Some (chain_end src ts)"
    if "\<forall>q \<in> set (chain_paths src ts). fs' q = fs q"
    using leaf_chain_agree[OF assms that] by (rule deref_leaf_chain)
qed

text \<open>
  An instance: \<^verbatim>\<open>/out/bin/tool.py\<close> is a link to \<^verbatim>\<open>gen/tool.py\<close>, which is a link to
  \<^verbatim>\<open>impl.py\<close>; the directory \<^verbatim>\<open>/out\<close> is itself a link, and stays in the result.
\<close>

theorem dereference_symlinks_leaf_chain_witness:
  "leaf_chain
      [''/out/bin/tool.py'' \<mapsto> ''gen/tool.py'', ''/out/bin/gen/tool.py'' \<mapsto> ''impl.py'',
       ''/out'' \<mapsto> ''/buck-out'']
      ''/out/bin/tool.py'' [''gen/tool.py'', ''impl.py'']
   \<and> dereference_symlinks
      [''/out/bin/tool.py'' \<mapsto> ''gen/tool.py'', ''/out/bin/gen/tool.py'' \<mapsto> ''impl.py'',
       ''/out'' \<mapsto> ''/buck-out'']
      ''/out/bin/tool.py'' = Some ''/out/bin/gen/impl.py''
   \<and> leaf_chain [''/out'' \<mapsto> ''/buck-out''] ''/out/bin/tool.py'' []
   \<and> dereference_symlinks [''/out'' \<mapsto> ''/buck-out''] ''/out/bin/tool.py''
        = Some ''/out/bin/tool.py''"
proof -
  let ?fs = "[''/out/bin/tool.py'' \<mapsto> ''gen/tool.py'', ''/out/bin/gen/tool.py'' \<mapsto> ''impl.py'',
       ''/out'' \<mapsto> ''/buck-out'']"
  have c: "leaf_chain ?fs ''/out/bin/tool.py'' [''gen/tool.py'', ''impl.py'']"
    by (simp add: path_eval)
  have e: "chain_end ''/out/bin/tool.py'' [''gen/tool.py'', ''impl.py''] = ''/out/bin/gen/impl.py''"
    by (simp add: path_eval)
  have c0: "leaf_chain [''/out'' \<mapsto> ''/buck-out''] ''/out/bin/tool.py'' []"
    by (simp add: path_eval)
  from dereference_symlinks_leaf_chain[OF c, of ?fs] dereference_symlinks_leaf_chain[OF c0, of Map.empty]
    c c0 e
  show ?thesis by simp
qed

text \<open>
  C3. The claim fails on the code: the loop has no bound and keeps no record of the paths
  it has seen, so on a cycle of links it never returns. Where \<^verbatim>\<open>/a\<close> is a link to \<^verbatim>\<open>b\<close> and
  \<^verbatim>\<open>/b\<close> a link to \<^verbatim>\<open>a\<close>, the call on \<^verbatim>\<open>/a\<close> has no result.
\<close>

theorem dereference_symlinks_cycle_diverges:
  "dereference_symlinks [''/a'' \<mapsto> ''b'', ''/b'' \<mapsto> ''a''] ''/a'' = None"
  by (rule deref_cycle[where ts = "[''b'', ''a'']"]) (simp_all add: path_eval)

text \<open>
  C3, as the code has it: dereference_symlinks returns exactly when the leaf links from
  \<open>src\<close> form a finite chain that ends at a path that is not a link; when the links lead
  back to a path already visited (after the links \<open>ts\<close>, one or more links \<open>us\<close> return to
  the same path), it does not return, and no error is raised in its place.
\<close>

theorem dereference_symlinks_returns_iff:
  "((\<exists>r. dereference_symlinks fs src = Some r) = (\<exists>ts. leaf_chain fs src ts))
   \<and> (links_along fs src (ts @ us) \<and> us \<noteq> [] \<and> chain_end src (ts @ us) = chain_end src ts
        \<longrightarrow> dereference_symlinks fs src = None)"
proof (intro conjI impI)
  show "(\<exists>r. dereference_symlinks fs src = Some r) = (\<exists>ts. leaf_chain fs src ts)"
    using deref_Some_chain deref_leaf_chain by blast
  show "dereference_symlinks fs src = None"
    if "links_along fs src (ts @ us) \<and> us \<noteq> [] \<and> chain_end src (ts @ us) = chain_end src ts"
    using that deref_revisit by blast
qed

text \<open>
  Two instances: \<^verbatim>\<open>/x/s\<close> leads into the cycle of \<^verbatim>\<open>/x/a\<close> and \<^verbatim>\<open>/x/b\<close>, and the call has
  no result; with \<^verbatim>\<open>/x/y\<close> a link to the plain file \<^verbatim>\<open>z\<close>, the call returns.
\<close>

theorem dereference_symlinks_returns_iff_witness:
  "links_along [''/x/s'' \<mapsto> ''a'', ''/x/a'' \<mapsto> ''b'', ''/x/b'' \<mapsto> ''a''] ''/x/s''
      ([''a''] @ [''b'', ''a''])
   \<and> [''b'', ''a''] \<noteq> ([] :: path list)
   \<and> chain_end ''/x/s'' ([''a''] @ [''b'', ''a'']) = chain_end ''/x/s'' [''a'']
   \<and> dereference_symlinks [''/x/s'' \<mapsto> ''a'', ''/x/a'' \<mapsto> ''b'', ''/x/b'' \<mapsto> ''a''] ''/x/s''
       = None
   \<and> (\<exists>ts. leaf_chain [''/x/y'' \<mapsto> ''z''] ''/x/y'' ts)
   \<and> (\<exists>r. dereference_symlinks [''/x/y'' \<mapsto> ''z''] ''/x/y'' = Some r)"
proof -
  let ?cyc = "[''/x/s'' \<mapsto> ''a'', ''/x/a'' \<mapsto> ''b'', ''/x/b'' \<mapsto> ''a'']"
  have h: "links_along ?cyc ''/x/s'' ([''a''] @ [''b'', ''a'']) \<and> [''b'', ''a''] \<noteq> ([] :: path list)
     \<and> chain_end ''/x/s'' ([''a''] @ [''b'', ''a'']) = chain_end ''/x/s'' [''a'']"
    by (simp add: path_eval)
  have "leaf_chain [''/x/y'' \<mapsto> ''z''] ''/x/y'' [''z'']"
    by (simp add: path_eval)
  then have c: "\<exists>ts. leaf_chain [''/x/y'' \<mapsto> ''z''] ''/x/y'' ts" ..
  from dereference_symlinks_returns_iff[of ?cyc "''/x/s''" "[''a'']" "[''b'', ''a'']"]
    dereference_symlinks_returns_iff[of "[''/x/y'' \<mapsto> ''z'']" "''/x/y''" "[]" "[]"] h c
  show ?thesis by blast
qed

text \<open>
  C9. The claim fails on the code: no step of dereference_symlinks makes a path absolute.
  A relative path that is not a link is returned as it is.
\<close>

theorem dereference_symlinks_relative_counterexample:
  "dereference_symlinks Map.empty ''lib/util.py'' = Some ''lib/util.py''
   \<and> \<not> isabs ''lib/util.py''"
  by (simp add: deref_not_link isabs_def)

text \<open>
  C9, as the code has it: the path returned is absolute exactly when the input path is
  absolute or one of the links followed has an absolute text. In particular an absolute
  input gives an absolute result, and a relative input with relative links stays relative.
\<close>

theorem dereference_symlinks_absolute:
  assumes "dereference_symlinks fs src = Some r"
  shows "\<exists>ts. leaf_chain fs src ts \<and> r = chain_end src ts
            \<and> isabs r = (isabs src \<or> (\<exists>t \<in> set ts. isabs t))
       \<and> (isabs src \<longrightarrow> isabs r)"
proof -
  from deref_Some_chain[OF assms] obtain ts where
    ts: "leaf_chain fs src ts" "r = chain_end src ts" by blast
  then have "isabs r = (isabs src \<or> (\<exists>t \<in> set ts. isabs t))"
    by (simp add: isabs_chain_end)
  with ts show ?thesis by blast
qed

theorem dereference_symlinks_absolute_witness:
  "dereference_symlinks [''/w/a.py'' \<mapsto> ''b.py''] ''/w/a.py'' = Some ''/w/b.py''
   \<and> isabs ''/w/a.py'' \<and> isabs ''/w/b.py''
   \<and> (\<exists>ts. leaf_chain [''/w/a.py'' \<mapsto> ''b.py''] ''/w/a.py'' ts \<and> ''/w/b.py'' = chain_end ''/w/a.py'' ts
         \<and> isabs ''/w/b.py'' = (isabs ''/w/a.py'' \<or> (\<exists>t \<in> set ts. isabs t)))"
proof -
  have "leaf_chain [''/w/a.py'' \<mapsto> ''b.py''] ''/w/a.py'' [''b.py'']"
    by (simp add: path_eval)
  then have d: "dereference_symlinks [''/w/a.py'' \<mapsto> ''b.py''] ''/w/a.py'' = Some ''/w/b.py''"
    using deref_leaf_chain[of "[''/w/a.py'' \<mapsto> ''b.py'']" "''/w/a.py''" "[''b.py'']"]
    by (simp add: path_eval)
  have a: "isabs ''/w/a.py''" by (simp add: isabs_def)
  from dereference_symlinks_absolute[OF d] d a show ?thesis by blast
qed

text \<open>
  C10. Whenever dereference_symlinks returns, its result is not a symbolic link, so
  running it again on the result changes nothing: it is idempotent.
\<close>

theorem dereference_symlinks_idempotent:
  assumes "dereference_symlinks fs p = Some r"
  shows "\<not> islink fs r \<and> dereference_symlinks fs r = Some r
       \<and> Option.bind (dereference_symlinks fs p) (dereference_symlinks fs)
           = dereference_symlinks fs p"
proof -
  from deref_result_not_link[OF assms] have "fs r = None" .
  then show ?thesis using assms by (simp add: islink_def deref_not_link)
qed

theorem dereference_symlinks_idempotent_witness:
  "dereference_symlinks [''/w/a.py'' \<mapsto> ''/v/b.py''] ''/w/a.py'' = Some ''/v/b.py''
   \<and> \<not> islink [''/w/a.py'' \<mapsto> ''/v/b.py''] ''/v/b.py''
   \<and> dereference_symlinks [''/w/a.py'' \<mapsto> ''/v/b.py''] ''/v/b.py'' = Some ''/v/b.py''"
proof -
  have "leaf_chain [''/w/a.py'' \<mapsto> ''/v/b.py''] ''/w/a.py'' [''/v/b.py'']"
    by (simp add: path_eval)
  then have d: "dereference_symlinks [''/w/a.py'' \<mapsto> ''/v/b.py''] ''/w/a.py'' = Some ''/v/b.py''"
    using deref_leaf_chain[of "[''/w/a.py'' \<mapsto> ''/v/b.py'']" "''/w/a.py''" "[''/v/b.py'']"]
    by (simp add: path_eval)
  from dereference_symlinks_idempotent[OF d] d show ?thesis by simp
qed

section \<open>Further claims about main\<close>

text \<open>
  C4. Take a run that has called \<^verbatim>\<open>mkdtemp\<close> and got the scratch directory \<open>d\<close>, and that
  ends. Then optparse had decoded the command line with one positional argument and the
  manifest had been read; the calls of the run are those of the body of the \<^verbatim>\<open>try\<close>
  statement followed by \<open>rmtree d True\<close>, whether the body returned or raised; the outcome
  of the run is the outcome of the body (its exception, or \<^verbatim>\<open>None\<close>); and the calls and the
  outcome are the same whether or not the removal fails.
\<close>

theorem scratch_cleanup:
  assumes "main env c = Some (tr, r)"
    and "Mkdtemp \<in> set tr" "mkdtemp_result env = Inr d"
  shows "\<exists>m es rb. optparse_exit c = None \<and> length (positional c) = 1
           \<and> stdin_manifest env = Inr m
           \<and> try_body env (option_values env c) (positional c ! 0) m d = Some (es, rb)
           \<and> tr = [JsonLoad, Mkdtemp] @ es @ [Rmtree d True]
           \<and> r = (case rb of Inl e \<Rightarrow> Inl e | Inr _ \<Rightarrow> Inr None)
           \<and> (\<forall>f. main (env\<lparr>rmtree_fails := f\<rparr>) c = Some (tr, r))"
  using assms(1)
proof (cases rule: main_cases)
  case (exited x)
  with assms(2) show ?thesis by (cases x) simp_all
next
  case usage
  with assms(2) show ?thesis by simp
next
  case (no_manifest e)
  with assms(2) show ?thesis by simp
next
  case (no_scratch m e)
  with assms(3) show ?thesis by simp
next
  case (ran m d' es rb)
  with assms(3) have d: "d' = d" by simp
  note body = ran(5)[unfolded d]
  have "main (env\<lparr>rmtree_fails := f\<rparr>) c = Some (tr, r)" for f
    using main_ran[of c "env\<lparr>rmtree_fails := f\<rparr>" m d] ran(1-3) assms(3) body ran(6,7) d
    by simp
  with ran(1-3) body ran(6,7) d show ?thesis by blast
qed

text \<open>
  An instance: the build fails with a full disk and the removal fails too; the run still
  ends with the error of the build, as it does when the removal works.
\<close>

theorem scratch_cleanup_witness:
  "main (sample_env\<lparr>build_failure := \<lambda>b output. Some (Failure ''disk full'')\<rparr>) sample_cli =
     Some (sample_setup @
           [AddSource ''/w/gen/a.py'' ''app/main.py'', AddResource ''/w/data.txt'' ''app/data.txt'',
            Build sample_builder ''out.pex'', Rmtree ''/tmp/pex'' True],
           Inl (Failure ''disk full''))
   \<and> Mkdtemp \<in> set (sample_setup @
           [AddSource ''/w/gen/a.py'' ''app/main.py'', AddResource ''/w/data.txt'' ''app/data.txt'',
            Build sample_builder ''out.pex'', Rmtree ''/tmp/pex'' True])
   \<and> mkdtemp_result (sample_env\<lparr>build_failure := \<lambda>b output. Some (Failure ''disk full'')\<rparr>)
       = Inr ''/tmp/pex''
   \<and> rmtree_fails (sample_env\<lparr>build_failure := \<lambda>b output. Some (Failure ''disk full'')\<rparr>)
   \<and> main (sample_env\<lparr>build_failure := \<lambda>b output. Some (Failure ''disk full''),
                        rmtree_fails := False\<rparr>) sample_cli =
     Some (sample_setup @
           [AddSource ''/w/gen/a.py'' ''app/main.py'', AddResource ''/w/data.txt'' ''app/data.txt'',
            Build sample_builder ''out.pex'', Rmtree ''/tmp/pex'' True],
           Inl (Failure ''disk full''))"
proof -
  let ?env = "sample_env\<lparr>build_failure := \<lambda>b output. Some (Failure ''disk full'')\<rparr>"
  have h2: "Mkdtemp \<in> set (sample_setup @
           [AddSource ''/w/gen/a.py'' ''app/main.py'', AddResource ''/w/data.txt'' ''app/data.txt'',
            Build sample_builder ''out.pex'', Rmtree ''/tmp/pex'' True])"
    by (simp add: sample_setup_def)
  have h3: "mkdtemp_result ?env = Inr ''/tmp/pex''" by (simp add: sample_env_def)
  have h4: "rmtree_fails ?env" by (simp add: sample_env_def)
  from scratch_cleanup[OF sample_failed_build h2 h3]
  have "main (?env\<lparr>rmtree_fails := False\<rparr>) sample_cli =
     Some (sample_setup @
           [AddSource ''/w/gen/a.py'' ''app/main.py'', AddResource ''/w/data.txt'' ''app/data.txt'',
            Build sample_builder ''out.pex'', Rmtree ''/tmp/pex'' True],
           Inl (Failure ''disk full''))" by blast
  with sample_failed_build h2 h3 h4 show ?thesis by (intro conjI)
qed

text \<open>
  C5. The claim fails on the code for a command line with the help option: for
  \<^verbatim>\<open>pex.py --help\<close> there is no positional argument, yet optparse prints the help and ends
  the process with status 0 inside \<^verbatim>\<open>parse_args\<close>, before line 45; no usage error is
  reported.
\<close>

theorem help_exits_zero_counterexample:
  "length (positional (sample_cli\<lparr>optparse_exit := Some HelpRequested, positional := []\<rparr>)) = 0
   \<and> main sample_env (sample_cli\<lparr>optparse_exit := Some HelpRequested, positional := []\<rparr>) =
       Some ([PrintHelp], Inl (SystemExit 0))
   \<and> exit_status (Inl (SystemExit 0)) = 0"
  using sample_help by (simp add: exit_status_def)

text \<open>
  C5, as the code has it: when optparse decodes the command line and the number of
  positional arguments is not one, the run makes a single call, \<^verbatim>\<open>parser.error\<close>, and the
  process exits with status 2. When optparse ends the process itself, an unknown or
  malformed option is reported through \<^verbatim>\<open>parser.error\<close> with status 2, and the help option
  prints the help and exits with status 0. In all these runs no manifest is read, no
  scratch directory is made, and nothing is built.
\<close>

theorem usage_error_no_side_effects:
  assumes "length (positional c) \<noteq> 1 \<or> optparse_exit c \<noteq> None"
  shows "\<exists>tr r. main env c = Some (tr, r)
           \<and> Mkdtemp \<notin> set tr \<and> JsonLoad \<notin> set tr \<and> (\<forall>b out. Build b out \<notin> set tr)
           \<and> (optparse_exit c = None \<longrightarrow>
                tr = [ParserError '''output' positional argument is required'']
                \<and> exit_status r = 2)
           \<and> (\<forall>msg. optparse_exit c = Some (BadOption msg) \<longrightarrow>
                tr = [ParserError msg] \<and> exit_status r = 2)
           \<and> (optparse_exit c = Some HelpRequested \<longrightarrow>
                tr = [PrintHelp] \<and> exit_status r = 0)"
proof (cases "optparse_exit c")
  case None
  with assms have "length (positional c) \<noteq> 1" by simp
  from main_usage[OF None this, of env] None show ?thesis
    by (simp add: exit_status_def)
next
  case (Some x)
  from main_exited[OF Some, of env] Some show ?thesis
    by (cases x) (simp_all add: exit_status_def)
qed

text \<open>Two instances: no positional argument, and two of them.\<close>

theorem usage_error_no_side_effects_witness:
  "(length (positional (sample_cli\<lparr>positional := []\<rparr>)) \<noteq> 1)
   \<and> optparse_exit (sample_cli\<lparr>positional := []\<rparr>) = None
   \<and> main sample_env (sample_cli\<lparr>positional := []\<rparr>) =
       Some ([ParserError '''output' positional argument is required''], Inl (SystemExit 2))
   \<and> exit_status (Inl (SystemExit 2)) = 2
   \<and> (\<exists>tr r. main sample_env (sample_cli\<lparr>positional := [''a.pex'', ''b.pex'']\<rparr>) = Some (tr, r)
         \<and> tr = [ParserError '''output' positional argument is required'']
         \<and> exit_status r = 2)"
proof -
  have h: "length (positional (sample_cli\<lparr>positional := []\<rparr>)) \<noteq> 1
           \<or> optparse_exit (sample_cli\<lparr>positional := []\<rparr>) \<noteq> None" by simp
  have h2: "length (positional (sample_cli\<lparr>positional := [''a.pex'', ''b.pex'']\<rparr>)) \<noteq> 1
           \<or> optparse_exit (sample_cli\<lparr>positional := [''a.pex'', ''b.pex'']\<rparr>) \<noteq> None" by simp
  have n: "optparse_exit (sample_cli\<lparr>positional := []\<rparr>) = None"
    "optparse_exit (sample_cli\<lparr>positional := [''a.pex'', ''b.pex'']\<rparr>) = None"
    by (simp_all add: sample_cli_def)
  from usage_error_no_side_effects[OF h, of sample_env]
    usage_error_no_side_effects[OF h2, of sample_env] n sample_usage
  show ?thesis by (auto simp: exit_status_def)
qed

text \<open>
  C6. A destination that escapes the workspace root through \<^verbatim>\<open>..\<close> is rejected by the
  registration of either category, whatever the builder and the source; and a run whose
  manifest holds such an entry ends with an exception and never calls \<open>build\<close>. main does
  no check of its own: the rejection is the builder's, modelled from the spec.
\<close>

theorem escaping_destination_rejected:
  assumes "main env c = Some (tr, r)" and "stdin_manifest env = Inr m"
    and "m ''modules'' = Some ms \<and> (dst, src) \<in> set ms
       \<or> m ''resources'' = Some rs \<and> (dst, src) \<in> set rs"
    and "escapes dst"
  shows "(\<exists>e. r = Inl e) \<and> (\<forall>b out. Build b out \<notin> set tr)
       \<and> (\<forall>l b s. \<exists>e. link_into env l b s dst = Inl e)"
proof -
  have rej: "\<forall>l b s. \<exists>e. link_into env l b s dst = Inl e"
    using assms(4) by (simp add: link_into_def)
  from assms(1) have "(\<exists>e. r = Inl e) \<and> (\<forall>b out. Build b out \<notin> set tr)"
  proof (cases rule: main_cases)
    case (exited x)
    then show ?thesis by (cases x) simp_all
  next
    case usage
    then show ?thesis by simp
  next
    case (no_manifest e)
    then show ?thesis by simp
  next
    case (no_scratch m e)
    then show ?thesis by simp
  next
    case (ran m' d es rb)
    with assms(2) have m': "m' = m" by simp
    from ran(5) show ?thesis
    proof (cases rule: try_body_cases)
      case (no_interpreter e)
      with ran(6,7) show ?thesis by simp
    next
      case (failed found es' e)
      with ran(6,7) show ?thesis by (auto dest: registration_not_build)
    next
      case (built found ms' rs' es1 es2 b0 b1 b2)
      from source_loop_success[OF built(9)] have "\<forall>(dst, src) \<in> set ms'. \<not> escapes dst" by simp
      moreover from resource_loop_success[OF built(10)]
      have "\<forall>(dst, src) \<in> set rs'. \<not> escapes dst" by simp
      ultimately have False using assms(3,4) built(2,3) m' by auto
      then show ?thesis ..
    qed
  qed
  with rej show ?thesis by simp
qed

theorem escaping_destination_rejected_witness:
  "main (sample_env\<lparr>stdin_manifest := Inr escaping_manifest\<rparr>) sample_cli =
     Some (sample_setup @ [AddSource ''/w/data.txt'' ''../evil.py'', Rmtree ''/tmp/pex'' True],
           Inl (Failure ''destination escapes the workspace''))
   \<and> stdin_manifest (sample_env\<lparr>stdin_manifest := Inr escaping_manifest\<rparr>) = Inr escaping_manifest
   \<and> escaping_manifest ''modules'' = Some [(''../evil.py'', ''/w/data.txt'')]
   \<and> (''../evil.py'', ''/w/data.txt'') \<in> set [(''../evil.py'', ''/w/data.txt'')]
   \<and> escapes ''../evil.py''
   \<and> (\<exists>e. (Inl (Failure ''destination escapes the workspace'') :: exn + int option) = Inl e)
   \<and> (\<forall>b out. Build b out \<notin>
         set (sample_setup @ [AddSource ''/w/data.txt'' ''../evil.py'', Rmtree ''/tmp/pex'' True]))
   \<and> (\<forall>l b s. \<exists>e. link_into (sample_env\<lparr>stdin_manifest := Inr escaping_manifest\<rparr>) l b s
                     ''../evil.py'' = Inl e)"
proof -
  let ?env = "sample_env\<lparr>stdin_manifest := Inr escaping_manifest\<rparr>"
  have h2: "stdin_manifest ?env = Inr escaping_manifest" by simp
  have h3: "escaping_manifest ''modules'' = Some [(''../evil.py'', ''/w/data.txt'')]"
    by (simp add: escaping_manifest_def)
  have h3': "(''../evil.py'', ''/w/data.txt'') \<in> set [(''../evil.py'', ''/w/data.txt'')]" by simp
  have h4: "escapes ''../evil.py''" by (simp add: escapes_def)
  from h3 h3' have d: "escaping_manifest ''modules'' = Some [(''../evil.py'', ''/w/data.txt'')]
       \<and> (''../evil.py'', ''/w/data.txt'') \<in> set [(''../evil.py'', ''/w/data.txt'')]
     \<or> escaping_manifest ''resources'' = Some []
       \<and> (''../evil.py'', ''/w/data.txt'') \<in> set []" by blast
  from escaping_destination_rejected[OF sample_escape h2 d h4] sample_escape h2 h3 h3' h4
  show ?thesis by blast
qed

text \<open>
  C7. Whenever a run calls \<open>build\<close>, the builder it passes has its zip-safe flag true and
  its entry point equal to the \<^verbatim>\<open>--entry-point\<close> option (\<^verbatim>\<open>__main__\<close> when the flag is not
  given), both assignments were made before the call, and the output path is the
  positional argument.
\<close>

theorem metadata_set_before_build:
  assumes "main env c = Some (tr, r)" and "tr = pre @ Build b out # post"
  shows "zip_safe (info b)
       \<and> entry_point (info b) = (case flag_entry_point c of None \<Rightarrow> ''__main__'' | Some e \<Rightarrow> e)
       \<and> SetZipSafe True \<in> set pre
       \<and> SetEntryPoint (entry_point (info b)) \<in> set pre
       \<and> out = positional c ! 0"
proof -
  let ?opts = "option_values env c"
  have ep: "opt_entry_point ?opts = (case flag_entry_point c of None \<Rightarrow> ''__main__'' | Some e \<Rightarrow> e)"
    by (simp add: parse_args_def option_values_def print_help_def)
  from assms(2) have mem: "Build b out \<in> set tr" by simp
  from assms(1) show ?thesis
  proof (cases rule: main_cases)
    case (exited x)
    with mem show ?thesis by (cases x) simp_all
  next
    case usage
    with mem show ?thesis by simp
  next
    case (no_manifest e)
    with mem show ?thesis by simp
  next
    case (no_scratch m e)
    with mem show ?thesis by simp
  next
    case (ran m d es rb)
    from ran(5) show ?thesis
    proof (cases rule: try_body_cases)
      case (no_interpreter e)
      with mem ran(6) show ?thesis by simp
    next
      case (failed found es' e)
      with mem ran(6) show ?thesis by (auto dest: registration_not_build)
    next
      case (built found ms rs es1 es2 b0 b1 b2)
      let ?X = "[JsonLoad, Mkdtemp, FromBinary (opt_python ?opts),
             NewPEXBuilder d (PythonInterpreter (opt_python ?opts) (identity found)
               [((''setuptools'', ''1.0''),
                 join (BUCK_ROOT (script_file env)) ''third-party/py/setuptools'')]),
             SetZipSafe True, SetEntryPoint (opt_entry_point ?opts)] @ es1 @ es2"
      have tr: "pre @ Build b out # post = ?X @ Build b2 (positional c ! 0) # [Rmtree d True]"
        using assms(2) ran(6) built(11) by simp
      have nb: "\<forall>x \<in> set ?X. \<not> (\<exists>b' o'. x = Build b' o')"
        using source_loop_events[OF built(9)] resource_loop_events[OF built(10)]
        by (auto dest: registration_not_build)
      have "pre = ?X \<and> Build b out = Build b2 (positional c ! 0) \<and> post = [Rmtree d True]"
        by (rule split_at_unique[OF tr, where P = "\<lambda>x. \<exists>b' o'. x = Build b' o'"])
           (use nb in auto)
      then have pre: "pre = ?X" and b: "b = b2" and out: "out = positional c ! 0" by simp_all
      from source_loop_success[OF built(9)] resource_loop_success[OF built(10)]
      have "info b2 = info b0" by simp
      with built(6,7) b have "zip_safe (info b)" "entry_point (info b) = opt_entry_point ?opts"
        by simp_all
      with pre out ep show ?thesis by simp
    qed
  qed
qed

theorem metadata_set_before_build_witness:
  "main sample_env sample_cli =
     Some ((sample_setup @
            [AddSource ''/w/gen/a.py'' ''app/main.py'', AddResource ''/w/data.txt'' ''app/data.txt''])
           @ Build sample_builder ''out.pex'' # [Rmtree ''/tmp/pex'' True],
           Inr None)
   \<and> zip_safe (info sample_builder)
   \<and> entry_point (info sample_builder)
       = (case flag_entry_point sample_cli of None \<Rightarrow> ''__main__'' | Some e \<Rightarrow> e)
   \<and> SetZipSafe True \<in> set (sample_setup @
            [AddSource ''/w/gen/a.py'' ''app/main.py'', AddResource ''/w/data.txt'' ''app/data.txt''])
   \<and> SetEntryPoint (entry_point (info sample_builder)) \<in> set (sample_setup @
            [AddSource ''/w/gen/a.py'' ''app/main.py'', AddResource ''/w/data.txt'' ''app/data.txt''])
   \<and> ''out.pex'' = positional sample_cli ! 0"
proof -
  have run: "main sample_env sample_cli =
     Some ((sample_setup @
            [AddSource ''/w/gen/a.py'' ''app/main.py'', AddResource ''/w/data.txt'' ''app/data.txt''])
           @ Build sample_builder ''out.pex'' # [Rmtree ''/tmp/pex'' True],
           Inr None)"
    using sample_run by simp
  from metadata_set_before_build[OF run refl] run show ?thesis by blast
qed

text \<open>
  C8. Whenever a run constructs the builder, the interpreter descriptor it passes has as
  its binary the \<^verbatim>\<open>--python\<close> option (the interpreter running the tool when the flag is not
  given), as its identity the identity that \<^verbatim>\<open>from_binary\<close> found for that binary, and as
  its extras the single entry from \<open>(setuptools, 1.0)\<close> to
  \<^verbatim>\<open>third-party/py/setuptools\<close> under BUCK_ROOT, whatever extras \<^verbatim>\<open>from_binary\<close> reported.
  BUCK_ROOT is the repository root when the script is at
  \<^verbatim>\<open>src/com/facebook/buck/python/pex.py\<close> under it.
\<close>

theorem interpreter_descriptor:
  assumes "main env c = Some (tr, r)" and "NewPEXBuilder d interp \<in> set tr"
  shows "binary interp = (case flag_python c of None \<Rightarrow> sys_executable env | Some p \<Rightarrow> p)
       \<and> (\<exists>found. from_binary_result env (binary interp) = Inr found
              \<and> identity interp = identity found)
       \<and> extras interp =
           [((''setuptools'', ''1.0''),
             join (BUCK_ROOT (script_file env)) ''third-party/py/setuptools'')]
       \<and> (\<forall>root. script_file env = root @ ''/src/com/facebook/buck/python/pex.py''
             \<longrightarrow> BUCK_ROOT (script_file env) = root)
       \<and> mkdtemp_result env = Inr d"
proof -
  let ?opts = "option_values env c"
  have py: "opt_python ?opts = (case flag_python c of None \<Rightarrow> sys_executable env | Some p \<Rightarrow> p)"
    by (simp add: parse_args_def option_values_def print_help_def)
  have root: "\<forall>root. script_file env = root @ ''/src/com/facebook/buck/python/pex.py''
             \<longrightarrow> BUCK_ROOT (script_file env) = root"
    using BUCK_ROOT_of_script by simp
  from assms(1) show ?thesis
  proof (cases rule: main_cases)
    case (exited x)
    with assms(2) show ?thesis by (cases x) simp_all
  next
    case usage
    with assms(2) show ?thesis by simp
  next
    case (no_manifest e)
    with assms(2) show ?thesis by simp
  next
    case (no_scratch m e)
    with assms(2) show ?thesis by simp
  next
    case (ran m d' es rb)
    let ?I = "\<lambda>found. PythonInterpreter (opt_python ?opts) (identity found)
               [((''setuptools'', ''1.0''),
                 join (BUCK_ROOT (script_file env)) ''third-party/py/setuptools'')]"
    have "\<exists>found. from_binary_result env (opt_python ?opts) = Inr found
            \<and> d = d' \<and> interp = ?I found"
      using ran(5)
    proof (cases rule: try_body_cases)
      case (no_interpreter e)
      with assms(2) ran(6) show ?thesis by simp
    next
      case (failed found es' e)
      with assms(2) ran(6) show ?thesis by (auto dest: registration_not_builder)
    next
      case (built found ms rs es1 es2 b0 b1 b2)
      with assms(2) ran(6) source_loop_events[OF built(9)] resource_loop_events[OF built(10)]
      show ?thesis by (auto dest: registration_not_builder)
    qed
    then obtain found where "from_binary_result env (opt_python ?opts) = Inr found"
      "d = d'" "interp = ?I found" by blast
    with py root ran(4) show ?thesis by (auto simp: PythonInterpreter_def)
  qed
qed

theorem interpreter_descriptor_witness:
  "main sample_env sample_cli =
     Some (sample_setup @
           [AddSource ''/w/gen/a.py'' ''app/main.py'', AddResource ''/w/data.txt'' ''app/data.txt'',
            Build sample_builder ''out.pex'', Rmtree ''/tmp/pex'' True],
           Inr None)
   \<and> NewPEXBuilder ''/tmp/pex'' sample_interpreter \<in>
       set (sample_setup @
           [AddSource ''/w/gen/a.py'' ''app/main.py'', AddResource ''/w/data.txt'' ''app/data.txt'',
            Build sample_builder ''out.pex'', Rmtree ''/tmp/pex'' True])
   \<and> binary sample_interpreter
       = (case flag_python sample_cli of None \<Rightarrow> sys_executable sample_env | Some p \<Rightarrow> p)
   \<and> (\<exists>found. from_binary_result sample_env (binary sample_interpreter) = Inr found
          \<and> identity sample_interpreter = identity found)
   \<and> extras sample_interpreter =
       [((''setuptools'', ''1.0''),
         join (BUCK_ROOT (script_file sample_env)) ''third-party/py/setuptools'')]
   \<and> BUCK_ROOT (script_file sample_env) = ''/repo''
   \<and> mkdtemp_result sample_env = Inr ''/tmp/pex''"
proof -
  have mem: "NewPEXBuilder ''/tmp/pex'' sample_interpreter \<in>
       set (sample_setup @
           [AddSource ''/w/gen/a.py'' ''app/main.py'', AddResource ''/w/data.txt'' ''app/data.txt'',
            Build sample_builder ''out.pex'', Rmtree ''/tmp/pex'' True])"
    by (simp add: sample_setup_def)
  have script: "script_file sample_env = ''/repo'' @ ''/src/com/facebook/buck/python/pex.py''"
    by (simp add: sample_env_def)
  from interpreter_descriptor[OF sample_run mem] script
  have "BUCK_ROOT (script_file sample_env) = ''/repo''" by blast
  with interpreter_descriptor[OF sample_run mem] sample_run mem
  show ?thesis by blast
qed

end
